theory Spec2Isabelle
  imports Main "HOL-Library.Word"
begin

unbundle bit_operations_syntax

section \<open>Diffie-Hellman group exchange (dh-gex.c)\<close>

text \<open>
  A shallow embedding of \<^verbatim>\<open>src/dh-gex.c\<close>. Big numbers are \<open>int\<close>; \<open>size_t\<close>
  values are \<open>nat\<close> with the wrap-around at \<open>2 ^ 64\<close> written out where the code adds;
  \<open>uint32_t\<close> bounds are \<open>nat\<close> (they are only compared); the 32-bit random draw is a
  \<open>32 word\<close>. Calls into the rest of the library (allocation, packet encoding, sending,
  the random source) are inputs of the model: each function takes a record with the
  outcome of every external call it makes.
\<close>

subsection \<open>Server side: the size-preference ordering\<close>

text \<open>\<^verbatim>\<open>dhgroup_better_size\<close>, lines 277-320, one branch per \<^verbatim>\<open>if\<close>.\<close>

definition dhgroup_better_size :: "nat \<Rightarrow> nat \<Rightarrow> nat \<Rightarrow> nat \<Rightarrow> nat \<Rightarrow> bool" where
  "dhgroup_better_size pmin pn pmax current_size proposed_size =
     (if current_size = proposed_size then False
      else if current_size = pn then False
      else if current_size = 0 \<and> proposed_size \<ge> pmin \<and> proposed_size \<le> pmax then True
      else if proposed_size < pmin \<or> proposed_size > pmax then False
      else if current_size = 0 then False
      else if proposed_size \<ge> pn \<and> proposed_size < current_size then True
      else if proposed_size \<le> pn \<and> proposed_size > current_size then True
      else if proposed_size \<ge> pn \<and> current_size < pn then True
      else False)"

subsection \<open>Server side: the random draw\<close>

text \<open>
  \<^verbatim>\<open>invn_chance\<close>, lines 326-331. The draw \<open>nounce\<close> written by \<^verbatim>\<open>ssh_get_random\<close> is an
  argument. The parameter is a C \<^verbatim>\<open>int\<close>; in \<^verbatim>\<open>nounce % n\<close> it is converted to
  \<^verbatim>\<open>unsigned int\<close>, which keeps its 32 bits, so \<open>n\<close> is that bit pattern. A zero divisor
  is undefined behaviour in C and is the result \<open>None\<close>.
\<close>

definition invn_chance :: "32 word \<Rightarrow> 32 word \<Rightarrow> bool option" where
  "invn_chance n nounce = (if n = 0 then None else Some (nounce mod n = 0))"

subsection \<open>Server side: one parsed line of the moduli file\<close>

text \<open>
  The seven values \<^verbatim>\<open>fscanf\<close> stores for one line (lines 366-374). The C variables
  \<^verbatim>\<open>type\<close> and \<^verbatim>\<open>size\<close> are the fields \<open>m_type\<close> and \<open>m_size\<close>.
\<close>

record moduli_entry =
  m_timestamp :: string
  m_type :: nat
  m_tests :: nat
  m_tries :: nat
  m_size :: nat
  m_generator :: string
  m_modulus :: string

text \<open>
  What the caller's three out-parameters \<^verbatim>\<open>*best_size\<close>, \<^verbatim>\<open>*best_generator\<close>,
  \<^verbatim>\<open>*best_modulus\<close> and the local \<^verbatim>\<open>best_nlines\<close> hold between two iterations;
  \<open>None\<close> is the \<^verbatim>\<open>NULL\<close> pointer.
\<close>

record selection =
  best_size :: nat
  best_nlines :: nat
  best_generator :: "string option"
  best_modulus :: "string option"

text \<open>
  The outcomes of the external calls of one iteration: the value \<^verbatim>\<open>ssh_get_random\<close>
  writes, and whether each \<^verbatim>\<open>strdup\<close> returns a non-null pointer.
\<close>

record iter_env =
  nounce :: "32 word"
  strdup_generator_ok :: bool
  strdup_modulus_ok :: bool

text \<open>
  The two ways an iteration does not reach the next one: \<^verbatim>\<open>return SSH_ERROR\<close> after a
  failed \<^verbatim>\<open>strdup\<close>, with the out-parameters as they are left, and the undefined
  \<^verbatim>\<open>nounce % 0\<close>.
\<close>

datatype scan_error = SSH_ERROR_strdup selection | Undefined_mod_zero

definition SAFE_PRIME :: nat where
  "SAFE_PRIME = 2"

definition PRIM_TEST_REQUIRED :: nat where
  "PRIM_TEST_REQUIRED = 4"

definition size_t_wrap :: "nat \<Rightarrow> nat" where
  "size_t_wrap n = n mod 2 ^ 64"

text \<open>\<^verbatim>\<open>strdup\<close> copies a C string: the bytes before the first NUL.\<close>

definition strdup :: "string \<Rightarrow> string" where
  "strdup s = takeWhile (\<lambda>c. c \<noteq> CHR 0x00) s"

text \<open>\<^verbatim>\<open>proposed_size = size + 1\<close>, line 391, in \<^verbatim>\<open>size_t\<close> arithmetic.\<close>

definition proposed_size_of :: "moduli_entry \<Rightarrow> nat" where
  "proposed_size_of r = size_t_wrap (m_size r + 1)"

text \<open>The filter of line 387: a safe prime that was tested.\<close>

definition wanted_entry :: "moduli_entry \<Rightarrow> bool" where
  "wanted_entry r \<longleftrightarrow> \<not> (m_type r \<noteq> SAFE_PRIME \<or> m_tests r AND PRIM_TEST_REQUIRED = 0)"

text \<open>Lines 392-396: adopt a better size and forget the count of the old one.\<close>

definition adopt_size :: "nat \<Rightarrow> nat \<Rightarrow> nat \<Rightarrow> nat \<Rightarrow> selection \<Rightarrow> selection" where
  "adopt_size pmin pn pmax proposed_size st =
     (if proposed_size \<noteq> best_size st \<and>
         dhgroup_better_size pmin pn pmax (best_size st) proposed_size
      then st\<lparr>best_nlines := 0, best_size := proposed_size\<rparr>
      else st)"

text \<open>Lines 397-399: count the entry when it has the best size.\<close>

definition count_line :: "nat \<Rightarrow> selection \<Rightarrow> selection" where
  "count_line proposed_size st =
     (if proposed_size = best_size st
      then st\<lparr>best_nlines := size_t_wrap (best_nlines st + 1)\<rparr>
      else st)"

text \<open>
  Lines 402-414: the reservoir draw and the replacement of the held pair.
  \<^verbatim>\<open>invn_chance(best_nlines)\<close> converts the \<^verbatim>\<open>size_t\<close> count to \<^verbatim>\<open>int\<close>, which keeps
  its low 32 bits.
\<close>

definition replace_held :: "iter_env \<Rightarrow> moduli_entry \<Rightarrow> selection \<Rightarrow> scan_error + selection" where
  "replace_held env r st =
     (if \<not> strdup_generator_ok env
      then Inl (SSH_ERROR_strdup (st\<lparr>best_generator := None, best_modulus := None\<rparr>))
      else if \<not> strdup_modulus_ok env
      then Inl (SSH_ERROR_strdup (st\<lparr>best_generator := None, best_modulus := None\<rparr>))
      else Inr (st\<lparr>best_generator := Some (strdup (m_generator r)),
                    best_modulus := Some (strdup (m_modulus r))\<rparr>))"

definition draw_and_hold ::
  "nat \<Rightarrow> iter_env \<Rightarrow> moduli_entry \<Rightarrow> selection \<Rightarrow> scan_error + selection" where
  "draw_and_hold proposed_size env r st =
     (if proposed_size = best_size st
      then (case invn_chance (word_of_nat (best_nlines st)) (nounce env) of
              None \<Rightarrow> Inl Undefined_mod_zero
            | Some True \<Rightarrow> replace_held env r st
            | Some False \<Rightarrow> Inr st)
      else Inr st)"

text \<open>The loop body from line 386 on, for an entry that \<^verbatim>\<open>fscanf\<close> read whole.\<close>

definition select_entry ::
  "nat \<Rightarrow> nat \<Rightarrow> nat \<Rightarrow> iter_env \<Rightarrow> moduli_entry \<Rightarrow> selection \<Rightarrow> scan_error + selection" where
  "select_entry pmin pn pmax env r st =
     (if \<not> wanted_entry r then Inr st
      else draw_and_hold (proposed_size_of r) env r
             (count_line (proposed_size_of r)
                (adopt_size pmin pn pmax (proposed_size_of r) st)))"

text \<open>
  The loop over the entries read so far; \<open>env i\<close> holds the outcomes of the external
  calls made for the \<open>i\<close>-th entry.
\<close>

fun select_loop ::
  "nat \<Rightarrow> nat \<Rightarrow> nat \<Rightarrow> (nat \<Rightarrow> iter_env) \<Rightarrow> nat \<Rightarrow> selection \<Rightarrow> moduli_entry list
     \<Rightarrow> scan_error + selection" where
  "select_loop pmin pn pmax env i st [] = Inr st"
| "select_loop pmin pn pmax env i st (r # rs) =
     (case select_entry pmin pn pmax (env i) r st of
        Inl err \<Rightarrow> Inl err
      | Inr st' \<Rightarrow> select_loop pmin pn pmax env (Suc i) st' rs)"

text \<open>The held pair is there whenever a size has been chosen.\<close>

definition held_pair_present :: "selection \<Rightarrow> bool" where
  "held_pair_present st \<longleftrightarrow>
     (best_size st \<noteq> 0 \<longrightarrow> best_generator st \<noteq> None \<and> best_modulus st \<noteq> None)"

subsection \<open>Server side: reading the moduli file\<close>

text \<open>
  The open file is the list of the bytes not yet read; the empty list is end of file.
  \<^verbatim>\<open>getc\<close> takes the head and \<^verbatim>\<open>ungetc\<close> puts it back. \<^verbatim>\<open>fscanf\<close> is the C library's,
  modelled as ISO C describes it (7.21.6.2): a white-space directive and the leading
  white space of \<^verbatim>\<open>%s\<close> and \<^verbatim>\<open>%zu\<close> skip every white-space byte, line feeds included.
\<close>

definition isspace :: "char \<Rightarrow> bool" where
  "isspace c \<longleftrightarrow> c = CHR '' '' \<or> c = CHR 0x09 \<or> c = CHR 0x0A \<or> c = CHR 0x0B \<or>
     c = CHR 0x0C \<or> c = CHR 0x0D"

definition isdigit :: "char \<Rightarrow> bool" where
  "isdigit c \<longleftrightarrow> (48::nat) \<le> of_char c \<and> of_char c \<le> (57::nat)"

definition digits_value :: "string \<Rightarrow> nat" where
  "digits_value ds = foldl (\<lambda>v c. 10 * v + (of_char c - 48)) 0 ds"

text \<open>
  The value of a \<^verbatim>\<open>%zu\<close> item. ISO C leaves a value that does not fit undefined; this is
  what glibc stores: \<^verbatim>\<open>ULONG_MAX\<close> on overflow, and the negation in \<^verbatim>\<open>size_t\<close> after a
  minus sign.
\<close>

definition strtoul_value :: "bool \<Rightarrow> string \<Rightarrow> nat" where
  "strtoul_value negative ds =
     (let v = digits_value ds
      in if v \<ge> 2 ^ 64 then 2 ^ 64 - 1
         else if negative then (2 ^ 64 - v) mod 2 ^ 64
         else v)"

datatype directive = Conv_s nat | Conv_zu | White_space

datatype assigned = Str string | Num nat

text \<open>
  The outcome of one conversion, with the bytes left unread: end of file before any byte
  of the item is an input failure, an item that is not a number a matching failure.
\<close>

datatype conversion = Input_failure | Matching_failure string | Converted assigned string

text \<open>\<^verbatim>\<open>%<width>s\<close>: at most \<open>width\<close> bytes that are not white space.\<close>

definition conv_s :: "nat \<Rightarrow> string \<Rightarrow> conversion" where
  "conv_s width s =
     (let s1 = dropWhile isspace s
      in if s1 = [] then Input_failure
         else let item = take width (takeWhile (\<lambda>c. \<not> isspace c) s1)
              in Converted (Str item) (drop (length item) s1))"

text \<open>
  \<^verbatim>\<open>%zu\<close>: an optional sign and decimal digits. A sign with no digit after it has been
  read and cannot be put back.
\<close>

definition conv_zu :: "string \<Rightarrow> conversion" where
  "conv_zu s =
     (case dropWhile isspace s of
        [] \<Rightarrow> Input_failure
      | c # cs \<Rightarrow>
          let signed = (c = CHR ''-'' \<or> c = CHR ''+'');
              s2 = (if signed then cs else c # cs);
              ds = takeWhile isdigit s2
          in if ds = [] then Matching_failure s2
             else Converted (Num (strtoul_value (c = CHR ''-'') ds)) (drop (length ds) s2))"

definition EOF :: int where
  "EOF = - 1"

text \<open>
  The directives in order, with the values assigned so far. The result is the return
  value (\<open>EOF\<close> for an input failure before the first assignment, else the number of
  assignments), the values and the bytes left unread.
\<close>

fun fscanf :: "directive list \<Rightarrow> string \<Rightarrow> assigned list \<Rightarrow> int \<times> assigned list \<times> string" where
  "fscanf [] s vals = (int (length vals), vals, s)"
| "fscanf (White_space # fmt) s vals = fscanf fmt (dropWhile isspace s) vals"
| "fscanf (Conv_s width # fmt) s vals =
     (case conv_s width s of
        Input_failure \<Rightarrow> (if vals = [] then EOF else int (length vals), vals, [])
      | Matching_failure rest \<Rightarrow> (int (length vals), vals, rest)
      | Converted v rest \<Rightarrow> fscanf fmt rest (vals @ [v]))"
| "fscanf (Conv_zu # fmt) s vals =
     (case conv_zu s of
        Input_failure \<Rightarrow> (if vals = [] then EOF else int (length vals), vals, [])
      | Matching_failure rest \<Rightarrow> (int (length vals), vals, rest)
      | Converted v rest \<Rightarrow> fscanf fmt rest (vals @ [v]))"

text \<open>The format of line 367: \<^verbatim>\<open>"%31s %zu %zu %zu %zu %31s %4095s\n"\<close>.\<close>

definition moduli_format :: "directive list" where
  "moduli_format = [Conv_s 31, White_space, Conv_zu, White_space, Conv_zu, White_space,
     Conv_zu, White_space, Conv_zu, White_space, Conv_s 31, White_space, Conv_s 4095,
     White_space]"

fun the_str :: "assigned \<Rightarrow> string" where
  "the_str (Str s) = s"
| "the_str (Num n) = []"

fun the_num :: "assigned \<Rightarrow> nat" where
  "the_num (Num n) = n"
| "the_num (Str s) = 0"

definition entry_of :: "assigned list \<Rightarrow> moduli_entry" where
  "entry_of vals = \<lparr>m_timestamp = the_str (vals ! 0), m_type = the_num (vals ! 1),
     m_tests = the_num (vals ! 2), m_tries = the_num (vals ! 3), m_size = the_num (vals ! 4),
     m_generator = the_str (vals ! 5), m_modulus = the_str (vals ! 6)\<rparr>"

text \<open>
  \<^verbatim>\<open>do { firstbyte = getc(moduli); } while (firstbyte != '\n' && firstbyte != EOF)\<close>,
  lines 357-359 and 380-382: everything up to and including the next line feed is read.
\<close>

definition skip_line :: "string \<Rightarrow> string" where
  "skip_line s = drop 1 (dropWhile (\<lambda>c. c \<noteq> CHR 0x0A) s)"

text \<open>
  What one iteration of the loop reads (lines 354-384), with the bytes left: the
  \<^verbatim>\<open>break\<close> at end of file, a comment, an entry with \<^verbatim>\<open>rc != 7\<close>, or the seven values.
\<close>

datatype line_read = End_of_file | Comment_line string | Invalid_entry string
  | Entry moduli_entry string

definition read_line :: "string \<Rightarrow> line_read" where
  "read_line s =
     (case s of
        [] \<Rightarrow> End_of_file
      | firstbyte # cs \<Rightarrow>
          if firstbyte = CHR ''#'' then Comment_line (skip_line cs)
          else (case fscanf moduli_format s [] of
                  (rc, vals, rest) \<Rightarrow>
                    if rc \<noteq> 7
                    then (if rc = EOF then End_of_file else Invalid_entry (skip_line rest))
                    else Entry (entry_of vals) rest))"

text \<open>
  The lines of a whole file in order, \<open>line\<close> being the counter of line 354. An entry
  with \<^verbatim>\<open>rc != 7\<close> leaves the message \<^verbatim>\<open>Invalid moduli entry line <line>\<close> in the log;
  a comment leaves nothing.
\<close>

datatype line_event = Invalid_line nat | Parsed moduli_entry

function moduli_lines :: "nat \<Rightarrow> string \<Rightarrow> line_event list" where
  "moduli_lines line s =
     (case read_line s of
        End_of_file \<Rightarrow> []
      | Comment_line rest \<Rightarrow> moduli_lines (Suc line) rest
      | Invalid_entry rest \<Rightarrow> Invalid_line line # moduli_lines (Suc line) rest
      | Entry r rest \<Rightarrow> Parsed r # moduli_lines (Suc line) rest)"
  by pat_completeness auto

definition parsed_entries :: "line_event list \<Rightarrow> moduli_entry list" where
  "parsed_entries evs =
     concat (map (\<lambda>ev. case ev of Parsed r \<Rightarrow> [r] | Invalid_line n \<Rightarrow> []) evs)"

text \<open>
  \<^verbatim>\<open>ssh_retrieve_dhgroup_file\<close>, lines 336-431. Reading a line does not depend on what
  was selected before, so the loop is the selection over the entries the file yields.
  \<open>best_nlines\<close> is a local that starts at 0; the other three fields are the caller's.
  \<open>Inr\<close> is \<^verbatim>\<open>return SSH_OK\<close>.
\<close>

definition ssh_retrieve_dhgroup_file ::
  "string \<Rightarrow> nat \<Rightarrow> nat \<Rightarrow> nat \<Rightarrow> (nat \<Rightarrow> iter_env) \<Rightarrow> selection \<Rightarrow> scan_error + selection" where
  "ssh_retrieve_dhgroup_file moduli pmin pn pmax env st =
     select_loop pmin pn pmax env 0 (st\<lparr>best_nlines := 0\<rparr>)
       (parsed_entries (moduli_lines 1 moduli))"

subsection \<open>Return codes\<close>

text \<open>
  The header with these macros is not under \<^verbatim>\<open>src/\<close>; the values are those of the
  library's public header. The model uses only that \<open>SSH_OK\<close> and \<open>SSH_ERROR\<close> differ.
\<close>

definition SSH_OK :: int where
  "SSH_OK = 0"

definition SSH_ERROR :: int where
  "SSH_ERROR = - 1"

definition SSH_PACKET_USED :: int where
  "SSH_PACKET_USED = 1"

subsection \<open>Server side: retrieving a group\<close>

text \<open>
  \<^verbatim>\<open>ssh_retrieve_dhgroup\<close>, lines 450-504. \<open>moduli\<close> is what \<^verbatim>\<open>fopen\<close> gives: \<open>None\<close> when
  the file cannot be opened, else its content. \<^verbatim>\<open>bignum_hex2bn\<close> is a macro over the
  crypto backend and is the parameter \<open>hex2bn\<close> (\<open>None\<close> is its return value 0). The
  three out-parameters are \<open>out\<close>, returned as the function leaves them; lines 470 and
  458-459 start the scan from \<open>no_selection\<close>. The result \<open>None\<close> is undefined
  behaviour.
\<close>

definition no_selection :: selection where
  "no_selection =
     \<lparr>best_size = 0, best_nlines = 0, best_generator = None, best_modulus = None\<rparr>"

record dhgroup_out =
  out_size :: nat
  out_p :: "int option"
  out_g :: "int option"

definition ssh_retrieve_dhgroup ::
  "(string \<Rightarrow> int option) \<Rightarrow> string option \<Rightarrow> nat \<Rightarrow> nat \<Rightarrow> nat \<Rightarrow> (nat \<Rightarrow> iter_env) \<Rightarrow>
     dhgroup_out \<Rightarrow> (int \<times> dhgroup_out) option" where
  "ssh_retrieve_dhgroup hex2bn moduli pmin pn pmax env out =
     (case moduli of
        None \<Rightarrow> Some (SSH_ERROR, out)
      | Some content \<Rightarrow>
          (case ssh_retrieve_dhgroup_file content pmin pn pmax env no_selection of
             Inl Undefined_mod_zero \<Rightarrow> None
           | Inl (SSH_ERROR_strdup st) \<Rightarrow>
               Some (SSH_ERROR, \<lparr>out_size = best_size st, out_p = None, out_g = None\<rparr>)
           | Inr st \<Rightarrow>
               if best_size st = 0
               then Some (SSH_ERROR, \<lparr>out_size = best_size st, out_p = None, out_g = None\<rparr>)
               else (case (best_generator st, best_modulus st) of
                       (Some generator, Some modulus) \<Rightarrow>
                         (case hex2bn generator of
                            None \<Rightarrow>
                              Some (SSH_ERROR,
                                    \<lparr>out_size = best_size st, out_p = None, out_g = None\<rparr>)
                          | Some g \<Rightarrow>
                              (case hex2bn modulus of
                                 None \<Rightarrow>
                                   Some (SSH_ERROR,
                                         \<lparr>out_size = best_size st, out_p = None, out_g = None\<rparr>)
                               | Some p \<Rightarrow>
                                   Some (SSH_OK,
                                         \<lparr>out_size = best_size st, out_p = Some p,
                                            out_g = Some g\<rparr>)))
                     | _ \<Rightarrow> None)))"

subsection \<open>Client side: the session\<close>

text \<open>
  \<^verbatim>\<open>DH_PMIN\<close>, \<^verbatim>\<open>DH_PREQ\<close> and \<^verbatim>\<open>DH_PMAX\<close> are macros of a header that is not under
  \<^verbatim>\<open>src/\<close>; the functions that use them take them as the parameter \<open>lim\<close>.
\<close>

record dh_limits =
  DH_PMIN :: int
  DH_PREQ :: int
  DH_PMAX :: int

text \<open>
  Modelled from the spec: the two state enumerations are declared in headers that are not
  under \<^verbatim>\<open>src/\<close>. Section 4.1 names the handshake states Idle, RequestSent, InitSent and
  NewKeysSent and the session state Error; the constructors carry the names the source
  uses, and \<open>DH_STATE_other\<close> and \<open>SSH_SESSION_STATE_other\<close> stand for every other value
  of the enumerations.
\<close>

datatype ssh_dh_state = DH_STATE_INIT | DH_STATE_REQUEST_SENT | DH_STATE_INIT_SENT
  | DH_STATE_NEWKEYS_SENT | DH_STATE_other nat

datatype ssh_session_state = SSH_SESSION_STATE_ERROR | SSH_SESSION_STATE_other nat

text \<open>The messages of the \<^verbatim>\<open>ssh_set_error\<close> and \<^verbatim>\<open>ssh_set_error_oom\<close> calls of the file.\<close>

datatype ssh_error =
    Received_DH_GEX_GROUP_in_invalid_state
  | Out_of_memory
  | Invalid_DH_GEX_GROUP_packet
  | Invalid_dh_group_parameter_p_bits int int int
  | Invalid_dh_group_parameter_p
  | Invalid_dh_group_parameter_g
  | Invalid_DH_GEX_REPLY_packet
  | Could_not_generate_shared_secret

text \<open>The packets the file builds with \<^verbatim>\<open>ssh_buffer_pack\<close> and \<^verbatim>\<open>ssh_buffer_add_u8\<close>.\<close>

datatype kex_message = KEX_DH_GEX_REQUEST int int int | KEX_DH_GEX_INIT int | NEWKEYS

text \<open>
  Modelled from the spec: \<^verbatim>\<open>struct ssh_crypto_struct\<close> and the session structure are
  declared in headers that are not under \<^verbatim>\<open>src/\<close>. Section 3 gives the handshake context
  the group \<open>(p, g)\<close>, the key pair \<open>(x, e)\<close> and the peer's data \<open>(f, host key blob,
  signature)\<close>; the fields \<open>p\<close>, \<open>g\<close>, \<open>x\<close>, \<open>e\<close>, \<open>f\<close> of the source are \<open>dh_p\<close> ... \<open>dh_f\<close>
  here, \<open>None\<close> being an unset big number. \<open>dh_ctx\<close> says that the scratch state of
  \<^verbatim>\<open>ssh_dh_init_common\<close> exists. Of the session the model keeps the fields the file
  uses, the packets sent, whether the callbacks of this file are registered, and the
  errors set, oldest first.
\<close>

record ssh_crypto =
  dh_p :: "int option"
  dh_g :: "int option"
  dh_x :: "int option"
  dh_e :: "int option"
  dh_f :: "int option"
  dh_server_signature :: "string option"
  server_pubkey :: "string option"
  shared_secret_built :: bool
  dh_group_is_mutable :: bool
  dh_ctx :: bool

record ssh_session =
  dh_handshake_state :: ssh_dh_state
  session_state :: ssh_session_state
  next_crypto :: ssh_crypto
  out_buffer :: "kex_message list"
  sent :: "kex_message list"
  dhgex_callbacks :: bool
  errors :: "ssh_error list"

definition context_released :: "ssh_crypto \<Rightarrow> bool" where
  "context_released crypto \<longleftrightarrow>
     dh_p crypto = None \<and> dh_g crypto = None \<and> dh_x crypto = None \<and> dh_e crypto = None \<and>
     dh_f crypto = None \<and> dh_server_signature crypto = None \<and> server_pubkey crypto = None \<and>
     \<not> shared_secret_built crypto \<and> \<not> dh_ctx crypto"

subsection \<open>Client side: the calls into the rest of the library\<close>

text \<open>
  Modelled from the spec: \<^verbatim>\<open>ssh_set_error\<close>, \<^verbatim>\<open>ssh_dh_cleanup\<close>, \<^verbatim>\<open>ssh_dh_init_common\<close>,
  \<^verbatim>\<open>ssh_buffer_pack\<close> and \<^verbatim>\<open>ssh_packet_send\<close> are defined in files that are not under
  \<^verbatim>\<open>src/\<close>. Section 4.1: a teardown releases the group, the key pair and the peer's data;
  initiation prepares a fresh context; a message is encoded and then emitted. The return
  code of each call is an input. A call that fails leaves the session as it was.
\<close>

definition ssh_set_error :: "ssh_error \<Rightarrow> ssh_session \<Rightarrow> ssh_session" where
  "ssh_set_error err session = session\<lparr>errors := errors session @ [err]\<rparr>"

definition ssh_dh_cleanup :: "ssh_crypto \<Rightarrow> ssh_crypto" where
  "ssh_dh_cleanup crypto =
     crypto\<lparr>dh_p := None, dh_g := None, dh_x := None, dh_e := None, dh_f := None,
       dh_server_signature := None, server_pubkey := None, shared_secret_built := False,
       dh_ctx := False\<rparr>"

definition ssh_dh_init_common :: "int \<Rightarrow> ssh_session \<Rightarrow> ssh_session" where
  "ssh_dh_init_common rc session =
     (if rc = SSH_OK then session\<lparr>next_crypto := (next_crypto session)\<lparr>dh_ctx := True\<rparr>\<rparr>
      else session)"

definition ssh_buffer_pack :: "int \<Rightarrow> kex_message \<Rightarrow> ssh_session \<Rightarrow> ssh_session" where
  "ssh_buffer_pack rc msg session =
     (if rc = SSH_OK then session\<lparr>out_buffer := out_buffer session @ [msg]\<rparr> else session)"

definition ssh_packet_send :: "int \<Rightarrow> ssh_session \<Rightarrow> ssh_session" where
  "ssh_packet_send rc session =
     (if rc = SSH_ERROR then session
      else session\<lparr>sent := sent session @ out_buffer session, out_buffer := []\<rparr>)"

subsection \<open>Client side: \<^verbatim>\<open>ssh_client_dhgex_init\<close>\<close>

text \<open>The return codes of the three calls of lines 63, 69 and 82.\<close>

record init_env =
  init_common_rc :: int
  init_pack_rc :: int
  init_send_rc :: int

text \<open>The label \<^verbatim>\<open>error:\<close> of lines 87-89.\<close>

definition dhgex_init_error :: "ssh_session \<Rightarrow> int \<times> ssh_session" where
  "dhgex_init_error session =
     (SSH_ERROR, session\<lparr>next_crypto := ssh_dh_cleanup (next_crypto session)\<rparr>)"

text \<open>Lines 59-90; the result is the return value and the session.\<close>

definition ssh_client_dhgex_init :: "dh_limits \<Rightarrow> init_env \<Rightarrow> ssh_session \<Rightarrow> int \<times> ssh_session" where
  "ssh_client_dhgex_init lim env session =
     (let s1 = ssh_dh_init_common (init_common_rc env) session
      in if init_common_rc env \<noteq> SSH_OK then dhgex_init_error s1
         else let s2 = ssh_buffer_pack (init_pack_rc env)
                         (KEX_DH_GEX_REQUEST (DH_PMIN lim) (DH_PREQ lim) (DH_PMAX lim)) s1
              in if init_pack_rc env \<noteq> SSH_OK then dhgex_init_error s2
                 else let s3 = s2\<lparr>dhgex_callbacks := True,
                                   dh_handshake_state := DH_STATE_REQUEST_SENT\<rparr>;
                          s4 = ssh_packet_send (init_send_rc env) s3
                      in if init_send_rc env = SSH_ERROR then dhgex_init_error s4
                         else (init_send_rc env, s4))"

subsection \<open>Client side: \<^verbatim>\<open>ssh_packet_client_dhgex_group\<close>\<close>

text \<open>
  The big-number operations the handler uses, on \<open>int\<close>. \<^verbatim>\<open>bignum_num_bits\<close> and
  \<^verbatim>\<open>bignum_is_bit_set\<close> look at the magnitude.
\<close>

fun num_bits :: "nat \<Rightarrow> nat" where
  "num_bits n = (if n = 0 then 0 else Suc (num_bits (n div 2)))"

definition bignum_num_bits :: "int \<Rightarrow> int" where
  "bignum_num_bits a = int (num_bits (nat \<bar>a\<bar>))"

definition bignum_cmp :: "int \<Rightarrow> int \<Rightarrow> int" where
  "bignum_cmp a b = (if a < b then - 1 else if a = b then 0 else 1)"

definition bignum_is_bit_set :: "int \<Rightarrow> nat \<Rightarrow> bool" where
  "bignum_is_bit_set a n = bit (nat \<bar>a\<bar>) n"

text \<open>
  The outcomes of the external calls of the handler, in the order of the source:
  \<^verbatim>\<open>bignum_ctx_new\<close>, the two \<^verbatim>\<open>bignum_new\<close> of lines 115-116, what
  \<^verbatim>\<open>ssh_buffer_unpack\<close> decodes from the packet (\<open>None\<close> when it does not return
  \<^verbatim>\<open>SSH_OK\<close>), \<^verbatim>\<open>bignum_set_word\<close>, \<^verbatim>\<open>ssh_dh_generate_secret\<close> and the secret it
  writes, the \<^verbatim>\<open>bignum_new\<close> of line 166, \<^verbatim>\<open>bignum_mod_exp\<close>, \<^verbatim>\<open>ssh_buffer_pack\<close>
  and \<^verbatim>\<open>ssh_packet_send\<close>.
\<close>

record group_env =
  ctx_new_ok :: bool
  one_new_ok :: bool
  pmin1_new_ok :: bool
  unpack_BB :: "(int \<times> int) option"
  set_word_rc :: int
  generate_secret_rc :: int
  secret_x :: int
  e_new_ok :: bool
  mod_exp_rc :: int
  group_pack_rc :: int
  group_send_rc :: int

text \<open>The label \<^verbatim>\<open>error:\<close> of lines 198-207.\<close>

definition dhgex_group_error :: "ssh_session \<Rightarrow> int \<times> ssh_session" where
  "dhgex_group_error session =
     (SSH_PACKET_USED,
      session\<lparr>next_crypto := ssh_dh_cleanup (next_crypto session),
              session_state := SSH_SESSION_STATE_ERROR\<rparr>)"

text \<open>Lines 161-197: the secret, the public value \<open>e = g ^ x mod p\<close> and the init message.\<close>

definition dhgex_send_init :: "group_env \<Rightarrow> int \<Rightarrow> int \<Rightarrow> ssh_session \<Rightarrow> int \<times> ssh_session" where
  "dhgex_send_init env p g session =
     (if generate_secret_rc env = SSH_ERROR then dhgex_group_error session
      else let s1 = session\<lparr>next_crypto := (next_crypto session)\<lparr>dh_x := Some (secret_x env)\<rparr>\<rparr>
           in if \<not> e_new_ok env then dhgex_group_error (ssh_set_error Out_of_memory s1)
              else if mod_exp_rc env \<noteq> 1 then dhgex_group_error s1
              else let e = g ^ nat (secret_x env) mod p;
                       s2 = s1\<lparr>next_crypto := (next_crypto s1)\<lparr>dh_e := Some e\<rparr>\<rparr>;
                       s3 = ssh_buffer_pack (group_pack_rc env) (KEX_DH_GEX_INIT e) s2
                   in if group_pack_rc env \<noteq> SSH_OK then dhgex_group_error s3
                      else (SSH_PACKET_USED,
                            ssh_packet_send (group_send_rc env)
                              (s3\<lparr>dh_handshake_state := DH_STATE_INIT_SENT\<rparr>)))"

text \<open>
  Lines 131-160, after \<^verbatim>\<open>bignum_set_word(one, 1)\<close>: the checks of the group. The branch
  of lines 145-148 sets an error and has no \<^verbatim>\<open>goto\<close>.
\<close>

definition dhgex_check_group :: "dh_limits \<Rightarrow> group_env \<Rightarrow> int \<Rightarrow> int \<Rightarrow> ssh_session \<Rightarrow> int \<times> ssh_session" where
  "dhgex_check_group lim env p g session =
     (let one = 1;
          blen = bignum_num_bits p
      in if blen < DH_PMIN lim \<or> blen > DH_PMAX lim
         then dhgex_group_error
                (ssh_set_error (Invalid_dh_group_parameter_p_bits blen (DH_PMIN lim) (DH_PMAX lim))
                   session)
         else let s1 = (if bignum_cmp p one \<le> 0
                        then ssh_set_error Invalid_dh_group_parameter_p session
                        else session)
              in if \<not> bignum_is_bit_set p 0
                 then dhgex_group_error (ssh_set_error Invalid_dh_group_parameter_p s1)
                 else let pmin1 = p - one
                      in if bignum_cmp g one \<le> 0 \<or> bignum_cmp g pmin1 > 0
                         then dhgex_group_error (ssh_set_error Invalid_dh_group_parameter_g s1)
                         else dhgex_send_init env p g s1)"

text \<open>Lines 96-130; the result is the return value and the session.\<close>

definition ssh_packet_client_dhgex_group :: "dh_limits \<Rightarrow> group_env \<Rightarrow> ssh_session \<Rightarrow> int \<times> ssh_session" where
  "ssh_packet_client_dhgex_group lim env session =
     (if \<not> ctx_new_ok env then dhgex_group_error session
      else if dh_handshake_state session \<noteq> DH_STATE_REQUEST_SENT
      then dhgex_group_error (ssh_set_error Received_DH_GEX_GROUP_in_invalid_state session)
      else if \<not> one_new_ok env \<or> \<not> pmin1_new_ok env
      then dhgex_group_error (ssh_set_error Out_of_memory session)
      else let s1 = session\<lparr>next_crypto := (next_crypto session)\<lparr>dh_group_is_mutable := True\<rparr>\<rparr>
           in case unpack_BB env of
                None \<Rightarrow> dhgex_group_error (ssh_set_error Invalid_DH_GEX_GROUP_packet s1)
              | Some (p, g) \<Rightarrow>
                  let s2 = s1\<lparr>next_crypto := (next_crypto s1)\<lparr>dh_p := Some p, dh_g := Some g\<rparr>\<rparr>
                  in if set_word_rc env \<noteq> 1 then dhgex_group_error s2
                     else dhgex_check_group lim env p g s2)"

subsection \<open>Client side: \<^verbatim>\<open>ssh_packet_client_dhgex_reply\<close>\<close>

text \<open>
  The outcomes of the external calls: what \<^verbatim>\<open>ssh_buffer_unpack\<close> decodes (\<open>None\<close> when it
  returns \<^verbatim>\<open>SSH_ERROR\<close>), and the return codes of \<^verbatim>\<open>ssh_dh_import_next_pubkey_blob\<close>,
  \<^verbatim>\<open>ssh_dh_build_k\<close>, \<^verbatim>\<open>ssh_buffer_add_u8\<close> and \<^verbatim>\<open>ssh_packet_send\<close>.
\<close>

record reply_env =
  unpack_SBS :: "(string \<times> int \<times> string) option"
  import_pubkey_rc :: int
  build_k_rc :: int
  add_u8_rc :: int
  reply_send_rc :: int

text \<open>The label \<^verbatim>\<open>error:\<close> of lines 254-258.\<close>

definition dhgex_reply_error :: "ssh_session \<Rightarrow> int \<times> ssh_session" where
  "dhgex_reply_error session =
     (SSH_PACKET_USED,
      session\<lparr>next_crypto := ssh_dh_cleanup (next_crypto session),
              session_state := SSH_SESSION_STATE_ERROR\<rparr>)"

text \<open>Lines 210-259. No line of the handler reads \<^verbatim>\<open>dh_handshake_state\<close>.\<close>

definition ssh_packet_client_dhgex_reply :: "reply_env \<Rightarrow> ssh_session \<Rightarrow> int \<times> ssh_session" where
  "ssh_packet_client_dhgex_reply env session =
     (let s0 = session\<lparr>dhgex_callbacks := False\<rparr>
      in case unpack_SBS env of
           None \<Rightarrow> dhgex_reply_error (ssh_set_error Invalid_DH_GEX_REPLY_packet s0)
         | Some (pubkey_blob, f, signature) \<Rightarrow>
             let s1 = s0\<lparr>next_crypto := (next_crypto s0)\<lparr>dh_f := Some f,
                            dh_server_signature := Some signature\<rparr>\<rparr>
             in if import_pubkey_rc env \<noteq> 0 then dhgex_reply_error s1
                else let s2 = s1\<lparr>next_crypto := (next_crypto s1)\<lparr>server_pubkey := Some pubkey_blob\<rparr>\<rparr>
                     in if build_k_rc env = SSH_ERROR
                        then dhgex_reply_error (ssh_set_error Could_not_generate_shared_secret s2)
                        else let s3 = s2\<lparr>next_crypto := (next_crypto s2)\<lparr>shared_secret_built := True\<rparr>\<rparr>
                             in if add_u8_rc env < 0 then dhgex_reply_error s3
                                else let s4 = ssh_packet_send (reply_send_rc env)
                                           (s3\<lparr>out_buffer := out_buffer s3 @ [NEWKEYS]\<rparr>)
                                     in if reply_send_rc env = SSH_ERROR then dhgex_reply_error s4
                                        else (SSH_PACKET_USED,
                                              s4\<lparr>dh_handshake_state := DH_STATE_NEWKEYS_SENT\<rparr>))"

subsection \<open>Example inputs\<close>

text \<open>A line of the moduli file for a tested safe prime, and an iteration in which both
  \<^verbatim>\<open>strdup\<close> calls succeed.\<close>

definition example_entry :: "nat \<Rightarrow> string \<Rightarrow> string \<Rightarrow> moduli_entry" where
  "example_entry sz gen md =
     \<lparr>m_timestamp = ''20200101000000'', m_type = 2, m_tests = 6, m_tries = 100,
      m_size = sz, m_generator = gen, m_modulus = md\<rparr>"

definition calls_succeed :: "32 word \<Rightarrow> iter_env" where
  "calls_succeed w = \<lparr>nounce = w, strdup_generator_ok = True, strdup_modulus_ok = True\<rparr>"

subsection \<open>The size the spec promises\<close>

text \<open>The effective sizes of the entries that pass the filter of line 387, in file order.\<close>

definition candidate_sizes :: "moduli_entry list \<Rightarrow> nat list" where
  "candidate_sizes rs = map proposed_size_of (filter wanted_entry rs)"

text \<open>
  The final best size in the words of the spec (section 4.3, net effect): the preferred
  size if a candidate has it; otherwise the smallest candidate size at or above the
  preferred one inside \<open>[pmin, pmax]\<close>; otherwise the largest candidate size below it inside
  \<open>[pmin, pmax]\<close>; and 0, the value for "no size", when no candidate is inside.
\<close>

definition spec_best_size :: "nat \<Rightarrow> nat \<Rightarrow> nat \<Rightarrow> nat list \<Rightarrow> nat" where
  "spec_best_size pmin pn pmax cands =
     (let window = filter (\<lambda>c. pmin \<le> c \<and> c \<le> pmax) cands;
          above = filter (\<lambda>c. pn \<le> c) window;
          below = filter (\<lambda>c. c < pn) window
      in if pn \<in> set cands then pn
         else if above \<noteq> [] then Min (set above)
         else if below \<noteq> [] then Max (set below)
         else 0)"

text \<open>What lines 392-396 leave in \<^verbatim>\<open>*best_size\<close>.\<close>

definition next_best_size :: "nat \<Rightarrow> nat \<Rightarrow> nat \<Rightarrow> nat \<Rightarrow> nat \<Rightarrow> nat" where
  "next_best_size pmin pn pmax cur proposed =
     (if proposed \<noteq> cur \<and> dhgroup_better_size pmin pn pmax cur proposed then proposed else cur)"

text \<open>The best size so far is the one the ordering prefers among the sizes seen.\<close>

definition best_so_far :: "nat \<Rightarrow> nat \<Rightarrow> nat \<Rightarrow> nat set \<Rightarrow> nat \<Rightarrow> bool" where
  "best_so_far pmin pn pmax seen cur \<longleftrightarrow>
     (let W = {c \<in> seen. pmin \<le> c \<and> c \<le> pmax}
      in if W = {} then cur = 0
         else cur \<in> W \<and>
              (if pn \<in> W then cur = pn
               else if \<exists>c\<in>W. pn \<le> c then pn \<le> cur \<and> (\<forall>c\<in>W. pn \<le> c \<longrightarrow> cur \<le> c)
               else \<forall>c\<in>W. c \<le> cur))"

subsection \<open>More example inputs\<close>

text \<open>Every external call of the scan succeeds; and a file with one tested safe prime at
  each of 4096, 1024 and 2048 bits.\<close>

definition always_succeed :: "nat \<Rightarrow> iter_env" where
  "always_succeed i = calls_succeed 0"

definition three_sizes :: "moduli_entry list" where
  "three_sizes = [example_entry 4095 ''5'' ''C7'', example_entry 1023 ''2'' ''B5'',
     example_entry 2047 ''2'' ''F3'']"

subsection \<open>The chance of a replacement\<close>

text \<open>
  \<^verbatim>\<open>ssh_get_random\<close> fills \<open>nounce\<close> with one of \<open>2 ^ 32\<close> equally likely values;
  \<open>draw_hits n\<close> counts those for which \<open>invn_chance n\<close> answers 1, so the chance of a
  replacement is \<open>draw_hits n / 2 ^ 32\<close>, and it is \<open>1 / n\<close> exactly when
  \<open>draw_hits n * n = 2 ^ 32\<close>.
\<close>

definition draw_hits :: "32 word \<Rightarrow> nat" where
  "draw_hits n = card {nounce. invn_chance n nounce = Some True}"

subsection \<open>Qualifying entries, and example files\<close>

text \<open>An entry qualifies when it passes the filter of line 387 and its effective size is
  inside \<open>[pmin, pmax]\<close>.\<close>

definition qualifies :: "nat \<Rightarrow> nat \<Rightarrow> moduli_entry \<Rightarrow> bool" where
  "qualifies pmin pmax r \<longleftrightarrow>
     wanted_entry r \<and> pmin \<le> proposed_size_of r \<and> proposed_size_of r \<le> pmax"

text \<open>A stand-in for \<^verbatim>\<open>bignum_hex2bn\<close> in the examples: the value of a non-empty string of
  hexadecimal digits.\<close>

definition hex_digit_value :: "char \<Rightarrow> nat option" where
  "hex_digit_value c =
     (let n = of_char c :: nat
      in if 48 \<le> n \<and> n \<le> 57 then Some (n - 48)
         else if 65 \<le> n \<and> n \<le> 70 then Some (n - 55)
         else if 97 \<le> n \<and> n \<le> 102 then Some (n - 87)
         else None)"

fun hex_digits :: "nat \<Rightarrow> string \<Rightarrow> nat option" where
  "hex_digits acc [] = Some acc"
| "hex_digits acc (c # cs) =
     (case hex_digit_value c of None \<Rightarrow> None | Some d \<Rightarrow> hex_digits (16 * acc + d) cs)"

definition example_hex2bn :: "string \<Rightarrow> int option" where
  "example_hex2bn s = (if s = [] then None else map_option int (hex_digits 0 s))"

text \<open>
  Three files: a line with one field followed by a valid line for a tested 2048-bit safe
  prime; that valid line alone; and a comment followed by a 512-bit entry. And the
  caller's out-parameters before the call.
\<close>

definition junk_then_valid :: string where
  "junk_then_valid = ''garbage\<newline>20200101000000 2 6 100 2047 2 F3\<newline>''"

definition valid_only :: string where
  "valid_only = ''20200101000000 2 6 100 2047 2 F3\<newline>''"

definition too_small_only :: string where
  "too_small_only = ''# moduli\<newline>20200101000000 2 6 100 511 2 F3\<newline>''"

text \<open>Two more files: a line whose second field is not a number, and a line with six
  fields, each followed by a valid line.\<close>

definition bad_field_then_valid :: string where
  "bad_field_then_valid =
     ''20200101000000 x 6 100 2047 2 F3\<newline>20200101000000 2 6 100 2047 5 C7\<newline>''"

definition six_fields_then_valid :: string where
  "six_fields_then_valid =
     ''20200101000000 2 6 100 2047 2\<newline>20200101000000 2 6 100 2047 5 C7\<newline>''"

definition unset_out :: dhgroup_out where
  "unset_out = \<lparr>out_size = 0, out_p = None, out_g = None\<rparr>"

subsection \<open>Client side: rejection, and example sessions\<close>

text \<open>
  What a rejected group message leaves: the packet is reported as used, the session is
  in the error state, the context is released, and the handshake state, the output
  buffer and the packets sent are what they were (no key was generated, nothing was
  sent).
\<close>

definition group_rejected :: "ssh_session \<Rightarrow> int \<times> ssh_session \<Rightarrow> bool" where
  "group_rejected session res \<longleftrightarrow>
     fst res = SSH_PACKET_USED \<and>
     session_state (snd res) = SSH_SESSION_STATE_ERROR \<and>
     context_released (next_crypto (snd res)) \<and>
     dh_handshake_state (snd res) = dh_handshake_state session \<and>
     out_buffer (snd res) = out_buffer session \<and>
     sent (snd res) = sent session"

text \<open>
  A session in a given handshake state (\<open>ready\<close>: after a successful
  \<^verbatim>\<open>ssh_client_dhgex_init\<close>); a group message that decodes to \<open>(p, g)\<close> with every other
  call succeeding and the secret \<open>x\<close>; size limits of 2048 to 8192 bits, and small ones
  for short examples; the three return codes of an initiation.
\<close>

definition fresh_crypto :: ssh_crypto where
  "fresh_crypto =
     \<lparr>dh_p = None, dh_g = None, dh_x = None, dh_e = None, dh_f = None,
      dh_server_signature = None, server_pubkey = None, shared_secret_built = False,
      dh_group_is_mutable = False, dh_ctx = False\<rparr>"

definition session_in :: "ssh_dh_state \<Rightarrow> bool \<Rightarrow> ssh_session" where
  "session_in st ready =
     \<lparr>dh_handshake_state = st, session_state = SSH_SESSION_STATE_other 0,
      next_crypto = fresh_crypto\<lparr>dh_ctx := ready\<rparr>, out_buffer = [], sent = [],
      dhgex_callbacks = ready, errors = []\<rparr>"

definition group_calls :: "bool \<Rightarrow> int \<Rightarrow> int \<Rightarrow> int \<Rightarrow> group_env" where
  "group_calls ctx p g x =
     \<lparr>ctx_new_ok = ctx, one_new_ok = True, pmin1_new_ok = True, unpack_BB = Some (p, g),
      set_word_rc = 1, generate_secret_rc = SSH_OK, secret_x = x, e_new_ok = True,
      mod_exp_rc = 1, group_pack_rc = SSH_OK, group_send_rc = SSH_OK\<rparr>"

definition example_limits :: dh_limits where
  "example_limits = \<lparr>DH_PMIN = 2048, DH_PREQ = 2048, DH_PMAX = 8192\<rparr>"

definition small_limits :: dh_limits where
  "small_limits = \<lparr>DH_PMIN = 1, DH_PREQ = 4, DH_PMAX = 8\<rparr>"

definition init_calls :: "int \<Rightarrow> int \<Rightarrow> int \<Rightarrow> init_env" where
  "init_calls common pack send =
     \<lparr>init_common_rc = common, init_pack_rc = pack, init_send_rc = send\<rparr>"

subsection \<open>Client side: the outcome of a reply\<close>

text \<open>
  Every call of the reply handler succeeds (the tests of lines 225, 231, 236, 242 and
  247 all pass); the error the handler sets, which depends on the first call that fails
  (lines 226 and 237; the other failures set none); and a reply that decodes to a host
  key blob, \<open>f\<close> and a signature with every call succeeding.
\<close>

definition reply_calls_succeed :: "reply_env \<Rightarrow> bool" where
  "reply_calls_succeed env \<longleftrightarrow>
     unpack_SBS env \<noteq> None \<and> import_pubkey_rc env = 0 \<and> build_k_rc env \<noteq> SSH_ERROR \<and>
     0 \<le> add_u8_rc env \<and> reply_send_rc env \<noteq> SSH_ERROR"

definition reply_errors :: "reply_env \<Rightarrow> ssh_error list" where
  "reply_errors env =
     (if unpack_SBS env = None then [Invalid_DH_GEX_REPLY_packet]
      else if import_pubkey_rc env = 0 \<and> build_k_rc env = SSH_ERROR
      then [Could_not_generate_shared_secret]
      else [])"

definition reply_calls :: "string \<Rightarrow> int \<Rightarrow> string \<Rightarrow> reply_env" where
  "reply_calls blob f sig =
     \<lparr>unpack_SBS = Some (blob, f, sig), import_pubkey_rc = 0, build_k_rc = SSH_OK,
      add_u8_rc = 0, reply_send_rc = SSH_OK\<rparr>"

section \<open>Termination of the reader\<close>

text \<open>Every conversion leaves no more bytes than it found, and a \<^verbatim>\<open>%s\<close> that converts
  takes at least one; so each iteration of the loop that does not stop shortens the file.\<close>

lemma length_skip_line: "length (skip_line s) \<le> length s"
  by (simp add: skip_line_def) (meson diff_le_self le_trans length_dropWhile_le)

lemma conv_s_shorter: "conv_s w s = Converted v rest \<Longrightarrow> length rest \<le> length s"
  by (auto simp: conv_s_def Let_def split: if_splits
      intro: le_trans [OF diff_le_self length_dropWhile_le])

lemma conv_s_strict:
  assumes "0 < w" "conv_s w s = Converted v rest"
  shows "length rest < length s"
proof -
  let ?s1 = "dropWhile isspace s"
  let ?item = "take w (takeWhile (\<lambda>c. \<not> isspace c) ?s1)"
  from assms have ne: "?s1 \<noteq> []" and rest: "rest = drop (length ?item) ?s1"
    by (auto simp: conv_s_def Let_def split: if_splits)
  from ne have "\<not> isspace (hd ?s1)"
    using hd_dropWhile by blast
  with ne have "takeWhile (\<lambda>c. \<not> isspace c) ?s1 \<noteq> []"
    by (cases ?s1) auto
  with \<open>0 < w\<close> have "0 < length ?item"
    by (cases "takeWhile (\<lambda>c. \<not> isspace c) ?s1") auto
  with ne rest have "length rest < length ?s1"
    by (cases ?s1) auto
  then show ?thesis
    using length_dropWhile_le [of isspace s] by linarith
qed

lemma conv_zu_shorter:
  assumes "conv_zu s = Converted v rest \<or> conv_zu s = Matching_failure rest"
  shows "length rest \<le> length s"
proof (cases "dropWhile isspace s")
  case Nil
  with assms show ?thesis by (simp add: conv_zu_def)
next
  case (Cons c cs)
  have a: "Suc (length cs) \<le> length s"
    using length_dropWhile_le [of isspace s] Cons by simp
  define s2 where "s2 = (if c = CHR ''-'' \<or> c = CHR ''+'' then cs else c # cs)"
  have b: "length s2 \<le> length s"
    using a by (simp add: s2_def)
  from assms Cons have "rest = s2 \<or> rest = drop (length (takeWhile isdigit s2)) s2"
    by (auto simp: conv_zu_def Let_def s2_def split: if_splits)
  with b show ?thesis by auto
qed

lemma conv_s_no_matching_failure: "conv_s w s \<noteq> Matching_failure rest"
  by (simp add: conv_s_def Let_def)

lemma fscanf_shorter:
  "fscanf fmt s vals = (rc, vals', rest) \<Longrightarrow> length rest \<le> length s"
proof (induction fmt s vals rule: fscanf.induct)
  case (1 s vals)
  then show ?case by simp
next
  case (2 fmt s vals)
  then show ?case
    using length_dropWhile_le [of isspace s] by fastforce
next
  case (3 w fmt s vals)
  then show ?case
    by (auto simp: conv_s_no_matching_failure split: conversion.splits if_splits
        dest: conv_s_shorter)
next
  case (4 fmt s vals)
  then show ?case
    by (auto split: conversion.splits if_splits
        dest: conv_zu_shorter [OF disjI1] conv_zu_shorter [OF disjI2])
qed

lemma fscanf_moduli_shorter:
  assumes "fscanf moduli_format s [] = (rc, vals, rest)" "rc \<noteq> EOF"
  shows "length rest < length s"
proof (cases "conv_s 31 s")
  case Input_failure
  with assms show ?thesis by (simp add: moduli_format_def EOF_def)
next
  case (Matching_failure x)
  then show ?thesis by (simp add: conv_s_no_matching_failure)
next
  case (Converted v r1)
  then have "length r1 < length s"
    using conv_s_strict [of 31 s v r1] by simp
  moreover from Converted assms have "fscanf (tl moduli_format) r1 [v] = (rc, vals, rest)"
    by (simp add: moduli_format_def)
  then have "length rest \<le> length r1"
    by (rule fscanf_shorter)
  ultimately show ?thesis by simp
qed

lemma read_line_shorter:
  "read_line s = Comment_line rest \<Longrightarrow> length rest < length s"
  "read_line s = Invalid_entry rest \<Longrightarrow> length rest < length s"
  "read_line s = Entry r rest \<Longrightarrow> length rest < length s"
proof -
  show "read_line s = Comment_line rest \<Longrightarrow> length rest < length s"
    using length_skip_line
    by (auto simp: read_line_def less_Suc_eq_le split: list.splits if_splits prod.splits)
  show "read_line s = Invalid_entry rest \<Longrightarrow> length rest < length s"
    by (auto simp: read_line_def split: list.splits if_splits prod.splits
        dest!: fscanf_moduli_shorter intro: le_less_trans [OF length_skip_line])
  show "read_line s = Entry r rest \<Longrightarrow> length rest < length s"
    by (auto simp: read_line_def EOF_def split: list.splits if_splits prod.splits
        dest!: fscanf_moduli_shorter)
qed

termination moduli_lines
  by (relation "measure (\<lambda>(line, s). length s)") (auto dest: read_line_shorter)

section \<open>The held pair during the scan\<close>

lemma select_entry_held:
  assumes "held_pair_present st" "select_entry pmin pn pmax env r st = Inr st'"
  shows "held_pair_present st'"
  using assms
  by (auto simp add: select_entry_def adopt_size_def count_line_def draw_and_hold_def
      replace_held_def held_pair_present_def invn_chance_def size_t_wrap_def
      split: if_splits option.splits bool.splits)

lemma select_loop_held:
  "held_pair_present st \<Longrightarrow> select_loop pmin pn pmax env i st rs = Inr st'
     \<Longrightarrow> held_pair_present st'"
proof (induction rs arbitrary: i st)
  case Nil
  then show ?case by simp
next
  case (Cons r rs)
  then show ?case
    by (auto split: sum.splits dest: select_entry_held)
qed

text \<open>
  C10. When the scan adopts a new best size the count of tied entries becomes 1; the draw
  with count 1 succeeds whatever the random value is; so, when both \<^verbatim>\<open>strdup\<close> calls
  succeed, the entry that brings a new best size becomes the held pair. Hence after every
  prefix of the entries that the scan gets through without an allocation failure, a
  non-zero \<open>best_size\<close> comes with a generator and a modulus that are not \<^verbatim>\<open>NULL\<close>,
  provided that held at the start (as it does for \<open>no_selection\<close>).
\<close>

theorem held_pair_invariant:
  "invn_chance 1 nounce0 = Some True \<and>
   (wanted_entry r \<and> proposed_size_of r \<noteq> best_size st \<and>
    dhgroup_better_size pmin pn pmax (best_size st) (proposed_size_of r) \<longrightarrow>
      best_nlines (count_line (proposed_size_of r)
        (adopt_size pmin pn pmax (proposed_size_of r) st)) = 1 \<and>
      (strdup_generator_ok env \<and> strdup_modulus_ok env \<longrightarrow>
         select_entry pmin pn pmax env r st =
           Inr \<lparr>best_size = proposed_size_of r, best_nlines = 1,
                best_generator = Some (strdup (m_generator r)),
                best_modulus = Some (strdup (m_modulus r))\<rparr>)) \<and>
   (held_pair_present st0 \<and> k \<le> length rs \<and>
    select_loop pmin pn pmax envs i st0 (take k rs) = Inr st' \<longrightarrow>
      held_pair_present st')"
proof (intro conjI impI)
  show "invn_chance 1 nounce0 = Some True"
    by (simp add: invn_chance_def)
next
  assume a: "wanted_entry r \<and> proposed_size_of r \<noteq> best_size st \<and>
    dhgroup_better_size pmin pn pmax (best_size st) (proposed_size_of r)"
  then show "best_nlines (count_line (proposed_size_of r)
        (adopt_size pmin pn pmax (proposed_size_of r) st)) = 1"
    by (simp add: adopt_size_def count_line_def size_t_wrap_def)
  assume "strdup_generator_ok env \<and> strdup_modulus_ok env"
  with a show "select_entry pmin pn pmax env r st =
           Inr \<lparr>best_size = proposed_size_of r, best_nlines = 1,
                best_generator = Some (strdup (m_generator r)),
                best_modulus = Some (strdup (m_modulus r))\<rparr>"
    by (simp add: select_entry_def adopt_size_def count_line_def draw_and_hold_def
      replace_held_def invn_chance_def size_t_wrap_def)
next
  assume "held_pair_present st0 \<and> k \<le> length rs \<and>
    select_loop pmin pn pmax envs i st0 (take k rs) = Inr st'"
  then show "held_pair_present st'"
    using select_loop_held by blast
qed

theorem held_pair_invariant_witness:
  "wanted_entry (example_entry 2047 ''2'' ''F3'') \<and>
   proposed_size_of (example_entry 2047 ''2'' ''F3'') \<noteq> best_size no_selection \<and>
   dhgroup_better_size 1024 2048 8192 (best_size no_selection)
     (proposed_size_of (example_entry 2047 ''2'' ''F3'')) \<and>
   strdup_generator_ok (calls_succeed 7) \<and> strdup_modulus_ok (calls_succeed 7) \<and>
   held_pair_present no_selection \<and>
   (2::nat) \<le> length [example_entry 4095 ''5'' ''C7'', example_entry 2047 ''2'' ''F3''] \<and>
   select_loop 1024 2048 8192 (\<lambda>_. calls_succeed 7) 0 no_selection
     (take 2 [example_entry 4095 ''5'' ''C7'', example_entry 2047 ''2'' ''F3'']) =
     Inr \<lparr>best_size = 2048, best_nlines = 1, best_generator = Some ''2'',
          best_modulus = Some ''F3''\<rparr> \<and>
   held_pair_present \<lparr>best_size = 2048, best_nlines = 1, best_generator = Some ''2'',
          best_modulus = Some ''F3''\<rparr>"
  using held_pair_invariant [of 7 "example_entry 2047 ''2'' ''F3''" no_selection 1024 2048 8192
      "calls_succeed 7" no_selection 2 "[example_entry 4095 ''5'' ''C7'', example_entry 2047 ''2'' ''F3'']"
      "\<lambda>_. calls_succeed 7" 0
      "\<lparr>best_size = 2048, best_nlines = 1, best_generator = Some ''2'',
          best_modulus = Some ''F3''\<rparr>"]
  by (simp add: wanted_entry_def example_entry_def SAFE_PRIME_def PRIM_TEST_REQUIRED_def
      proposed_size_of_def size_t_wrap_def no_selection_def dhgroup_better_size_def
      calls_succeed_def held_pair_present_def select_entry_def adopt_size_def count_line_def
      draw_and_hold_def replace_held_def invn_chance_def strdup_def)

section \<open>The size-preference ordering\<close>

lemma select_entry_best_size:
  assumes "select_entry pmin pn pmax env r st = Inr st'"
  shows "best_size st' =
    (if wanted_entry r then next_best_size pmin pn pmax (best_size st) (proposed_size_of r)
     else best_size st)"
  using assms
  by (auto simp add: select_entry_def adopt_size_def count_line_def draw_and_hold_def
      replace_held_def next_best_size_def
      split: if_splits option.splits bool.splits)

lemma select_loop_best_size:
  "select_loop pmin pn pmax env i st rs = Inr st' \<Longrightarrow>
   best_size st' = foldl (next_best_size pmin pn pmax) (best_size st) (candidate_sizes rs)"
proof (induction rs arbitrary: i st)
  case Nil
  then show ?case by (simp add: candidate_sizes_def)
next
  case (Cons r rs)
  from Cons.prems obtain st1 where
    s1: "select_entry pmin pn pmax (env i) r st = Inr st1" and
    s2: "select_loop pmin pn pmax env (Suc i) st1 rs = Inr st'"
    by (auto split: sum.splits)
  from Cons.IH [OF s2] select_entry_best_size [OF s1]
  show ?case by (simp add: candidate_sizes_def)
qed
lemma best_so_far_step:
  assumes "0 < pn" "pmin \<le> pn" "pn \<le> pmax" "best_so_far pmin pn pmax seen cur"
  shows "best_so_far pmin pn pmax (insert x seen) (next_best_size pmin pn pmax cur x)"
proof (cases "pmin \<le> x \<and> x \<le> pmax")
  case False
  then have w: "{c \<in> insert x seen. pmin \<le> c \<and> c \<le> pmax} = {c \<in> seen. pmin \<le> c \<and> c \<le> pmax}"
    by auto
  from False have "next_best_size pmin pn pmax cur x = cur"
    by (auto simp: next_best_size_def dhgroup_better_size_def)
  with assms(4) w show ?thesis
    by (simp add: best_so_far_def)
next
  case True
  define W where "W = {c \<in> seen. pmin \<le> c \<and> c \<le> pmax}"
  from True have w: "{c \<in> insert x seen. pmin \<le> c \<and> c \<le> pmax} = insert x W"
    by (auto simp: W_def)
  show ?thesis
  proof (cases "W = {}")
    case True
    with assms(4) have "cur = 0" by (simp add: best_so_far_def W_def)
    with \<open>pmin \<le> x \<and> x \<le> pmax\<close> assms(1) have "next_best_size pmin pn pmax cur x = x"
      by (auto simp: next_best_size_def dhgroup_better_size_def)
    with True w show ?thesis
      by (simp add: best_so_far_def)
  next
    case False
    with assms(4) have inv: "cur \<in> W"
      "pn \<in> W \<Longrightarrow> cur = pn"
      "pn \<notin> W \<Longrightarrow> \<exists>c\<in>W. pn \<le> c \<Longrightarrow> pn \<le> cur \<and> (\<forall>c\<in>W. pn \<le> c \<longrightarrow> cur \<le> c)"
      "pn \<notin> W \<Longrightarrow> \<not> (\<exists>c\<in>W. pn \<le> c) \<Longrightarrow> \<forall>c\<in>W. c \<le> cur"
      by (auto simp: best_so_far_def W_def Let_def split: if_splits)
    have ne: "insert x W \<noteq> {}" by simp
    consider (eq) "cur = pn" | (above) "pn < cur" | (below) "cur < pn"
      by linarith
    then show ?thesis
    proof cases
      case eq
      then have "next_best_size pmin pn pmax cur x = cur"
        by (simp add: next_best_size_def dhgroup_better_size_def)
      with eq inv(1) show ?thesis
        unfolding best_so_far_def w Let_def by auto
    next
      case above
      with inv have a: "pn \<notin> W" "\<forall>c\<in>W. pn \<le> c \<longrightarrow> cur \<le> c"
        by auto
      from above True assms(1)
      have nb: "next_best_size pmin pn pmax cur x = (if pn \<le> x \<and> x < cur then x else cur)"
        by (auto simp: next_best_size_def dhgroup_better_size_def)
      from above inv(1) a show ?thesis
        unfolding best_so_far_def w Let_def nb by auto
    next
      case below
      with inv have b: "pn \<notin> W" "\<forall>c\<in>W. c < pn" "\<forall>c\<in>W. c \<le> cur"
        by (auto simp: not_le) (metis not_le)+
      from below True assms(1)
      have nb: "next_best_size pmin pn pmax cur x = (if cur < x then x else cur)"
        by (auto simp: next_best_size_def dhgroup_better_size_def)
      from below inv(1) b show ?thesis
        unfolding best_so_far_def w Let_def nb by (auto simp: not_le)
    qed
  qed
qed

lemma best_so_far_foldl:
  assumes "0 < pn" "pmin \<le> pn" "pn \<le> pmax"
  shows "best_so_far pmin pn pmax seen cur \<Longrightarrow>
    best_so_far pmin pn pmax (seen \<union> set cands) (foldl (next_best_size pmin pn pmax) cur cands)"
proof (induction cands arbitrary: seen cur)
  case Nil
  then show ?case by simp
next
  case (Cons x cands)
  from best_so_far_step [OF assms Cons.prems]
  have "best_so_far pmin pn pmax (insert x seen \<union> set cands)
          (foldl (next_best_size pmin pn pmax) (next_best_size pmin pn pmax cur x) cands)"
    by (rule Cons.IH)
  then show ?case by simp
qed

lemma best_so_far_spec:
  assumes "pmin \<le> pn" "pn \<le> pmax" "best_so_far pmin pn pmax (set cands) cur"
  shows "cur = spec_best_size pmin pn pmax cands"
proof -
  define W where "W = {c \<in> set cands. pmin \<le> c \<and> c \<le> pmax}"
  have fin: "finite W" by (simp add: W_def)
  have above: "set (filter (\<lambda>c. pn \<le> c) (filter (\<lambda>c. pmin \<le> c \<and> c \<le> pmax) cands)) = {c \<in> W. pn \<le> c}"
    by (auto simp: W_def)
  have below: "set (filter (\<lambda>c. c < pn) (filter (\<lambda>c. pmin \<le> c \<and> c \<le> pmax) cands)) = {c \<in> W. c < pn}"
    by (auto simp: W_def)
  have inW: "pn \<in> W \<longleftrightarrow> pn \<in> set cands"
    using assms(1,2) by (auto simp: W_def)
  show ?thesis
  proof (cases "pn \<in> set cands")
    case True
    with inW assms(3) show ?thesis
      by (auto simp: best_so_far_def spec_best_size_def W_def Let_def split: if_splits)
  next
    case notin: False
    show ?thesis
    proof (cases "\<exists>c\<in>W. pn \<le> c")
      case True
      with notin inW assms(3) have c: "cur \<in> W" "pn \<le> cur" "\<forall>c\<in>W. pn \<le> c \<longrightarrow> cur \<le> c"
        by (auto simp: best_so_far_def W_def Let_def split: if_splits)
      have "Min {c \<in> W. pn \<le> c} = cur"
        by (rule Min_eqI) (use fin c in auto)
      moreover from True have "filter (\<lambda>c. pn \<le> c) (filter (\<lambda>c. pmin \<le> c \<and> c \<le> pmax) cands) \<noteq> []"
        using above by (metis (no_types, lifting) empty_iff empty_set mem_Collect_eq)
      ultimately show ?thesis
        using notin above by (simp add: spec_best_size_def Let_def)
    next
      case False
      then have noabove: "filter (\<lambda>c. pn \<le> c) (filter (\<lambda>c. pmin \<le> c \<and> c \<le> pmax) cands) = []"
        using above by (metis (no_types, lifting) empty_iff mem_Collect_eq set_empty2 equals0I)
      from False have bW: "{c \<in> W. c < pn} = W" by (auto simp: not_le)
      show ?thesis
      proof (cases "W = {}")
        case True
        with assms(3) have "cur = 0" by (simp add: best_so_far_def W_def)
        moreover from True bW below
        have "filter (\<lambda>c. c < pn) (filter (\<lambda>c. pmin \<le> c \<and> c \<le> pmax) cands) = []"
          by (metis set_empty)
        ultimately show ?thesis
          using notin noabove by (simp add: spec_best_size_def Let_def)
      next
        case ne: False
        with notin inW False assms(3) have c: "cur \<in> W" "\<forall>c\<in>W. c \<le> cur"
          by (auto simp: best_so_far_def W_def Let_def split: if_splits)
        have "Max W = cur"
          by (rule Max_eqI) (use fin c in auto)
        moreover from ne bW below
        have "filter (\<lambda>c. c < pn) (filter (\<lambda>c. pmin \<le> c \<and> c \<le> pmax) cands) \<noteq> []"
          by (metis set_empty)
        ultimately show ?thesis
          using notin noabove below bW by (simp add: spec_best_size_def Let_def)
      qed
    qed
  qed
qed

lemma foldl_best_size_spec:
  assumes "0 < pn" "pmin \<le> pn" "pn \<le> pmax"
  shows "foldl (next_best_size pmin pn pmax) 0 cands = spec_best_size pmin pn pmax cands"
proof -
  have "best_so_far pmin pn pmax {} 0"
    by (simp add: best_so_far_def)
  from best_so_far_foldl [OF assms this, of cands]
  show ?thesis
    using best_so_far_spec [OF assms(2,3)] by simp
qed

text \<open>Without an allocation failure, and with fewer than \<open>2 ^ 32\<close> entries, the scan returns.\<close>

lemma counted_lines:
  assumes "best_nlines st + 1 < 2 ^ 32"
  shows "best_nlines (count_line proposed (adopt_size pmin pn pmax proposed st))
           \<le> best_nlines st + 1"
    and "proposed = best_size (count_line proposed (adopt_size pmin pn pmax proposed st)) \<Longrightarrow>
         0 < best_nlines (count_line proposed (adopt_size pmin pn pmax proposed st))"
proof -
  have "best_nlines st + 1 < (2::nat) ^ 64"
    using assms(1) by (rule less_trans) simp
  then have w: "size_t_wrap (Suc (best_nlines st)) = Suc (best_nlines st)"
    by (simp add: size_t_wrap_def)
  show "best_nlines (count_line proposed (adopt_size pmin pn pmax proposed st))
           \<le> best_nlines st + 1"
    by (simp add: adopt_size_def count_line_def w) (simp add: size_t_wrap_def)
  show "proposed = best_size (count_line proposed (adopt_size pmin pn pmax proposed st)) \<Longrightarrow>
         0 < best_nlines (count_line proposed (adopt_size pmin pn pmax proposed st))"
    by (simp add: adopt_size_def count_line_def w split: if_splits)
      (simp_all add: size_t_wrap_def)
qed

lemma draw_and_hold_returns:
  assumes "strdup_generator_ok env" "strdup_modulus_ok env"
    "proposed = best_size st \<Longrightarrow> 0 < best_nlines st" "best_nlines st < 2 ^ 32"
  shows "\<exists>st'. draw_and_hold proposed env r st = Inr st' \<and> best_nlines st' = best_nlines st"
proof (cases "proposed = best_size st")
  case False
  then show ?thesis by (simp add: draw_and_hold_def)
next
  case True
  with assms(3,4) have "(word_of_nat (best_nlines st) :: 32 word) \<noteq> 0"
    using of_nat_neq_0 [where 'a = 32, of "best_nlines st"] by simp
  with True assms(1,2) show ?thesis
    by (simp add: draw_and_hold_def invn_chance_def replace_held_def split: bool.splits)
qed

lemma select_entry_returns:
  assumes "strdup_generator_ok env" "strdup_modulus_ok env" "best_nlines st + 1 < 2 ^ 32"
  shows "\<exists>st'. select_entry pmin pn pmax env r st = Inr st' \<and> best_nlines st' \<le> best_nlines st + 1"
proof (cases "wanted_entry r")
  case False
  then show ?thesis by (simp add: select_entry_def)
next
  case True
  let ?st2 = "count_line (proposed_size_of r) (adopt_size pmin pn pmax (proposed_size_of r) st)"
  note c = counted_lines [OF assms(3), of "proposed_size_of r" pmin pn pmax]
  from c(1) assms(3) have lt: "best_nlines ?st2 < 2 ^ 32" by simp
  have "\<exists>st'. draw_and_hold (proposed_size_of r) env r ?st2 = Inr st' \<and>
          best_nlines st' = best_nlines ?st2"
  proof (rule draw_and_hold_returns [OF assms(1,2)])
    show "proposed_size_of r = best_size ?st2 \<Longrightarrow> 0 < best_nlines ?st2"
      by (rule c(2))
    show "best_nlines ?st2 < 2 ^ 32"
      by (rule lt)
  qed
  with True c(1) show ?thesis
    by (auto simp: select_entry_def)
qed

lemma select_loop_returns:
  assumes "\<forall>j. strdup_generator_ok (env j) \<and> strdup_modulus_ok (env j)"
  shows "best_nlines st + length rs < 2 ^ 32 \<Longrightarrow>
    \<exists>st'. select_loop pmin pn pmax env i st rs = Inr st'"
proof (induction rs arbitrary: i st)
  case Nil
  then show ?case by simp
next
  case (Cons r rs)
  from Cons.prems have "best_nlines st + 1 < 2 ^ 32" by simp
  with assms obtain st1 where
    s1: "select_entry pmin pn pmax (env i) r st = Inr st1" and
    n1: "best_nlines st1 \<le> best_nlines st + 1"
    using select_entry_returns [of "env i" st pmin pn pmax r] by blast
  from n1 Cons.prems have "best_nlines st1 + length rs < 2 ^ 32" by simp
  from Cons.IH [OF this] s1 show ?case by simp
qed

lemma select_entry_preferred_held:
  assumes "select_entry pmin pn pmax env r st = Inr st'"
    "best_size st = pn \<longrightarrow> best_generator st = Some gen \<and> best_modulus st = Some md"
    "wanted_entry r \<and> proposed_size_of r = pn \<longrightarrow>
       strdup (m_generator r) = gen \<and> strdup (m_modulus r) = md"
  shows "best_size st' = pn \<longrightarrow> best_generator st' = Some gen \<and> best_modulus st' = Some md"
  using assms
  by (auto simp add: select_entry_def adopt_size_def count_line_def draw_and_hold_def
      replace_held_def invn_chance_def size_t_wrap_def
      split: if_splits option.splits bool.splits)

lemma select_loop_preferred_held:
  assumes "\<forall>r\<in>set rs. wanted_entry r \<and> proposed_size_of r = pn \<longrightarrow>
       strdup (m_generator r) = gen \<and> strdup (m_modulus r) = md"
  shows "select_loop pmin pn pmax env i st rs = Inr st' \<Longrightarrow>
    best_size st = pn \<longrightarrow> best_generator st = Some gen \<and> best_modulus st = Some md \<Longrightarrow>
    best_size st' = pn \<longrightarrow> best_generator st' = Some gen \<and> best_modulus st' = Some md"
  using assms
proof (induction rs arbitrary: i st)
  case Nil
  then show ?case by simp
next
  case (Cons r rs)
  from Cons.prems(1) obtain st1 where
    s1: "select_entry pmin pn pmax (env i) r st = Inr st1" and
    s2: "select_loop pmin pn pmax env (Suc i) st1 rs = Inr st'"
    by (auto split: sum.splits)
  from Cons.prems(3) have
    "wanted_entry r \<and> proposed_size_of r = pn \<longrightarrow>
       strdup (m_generator r) = gen \<and> strdup (m_modulus r) = md"
    by simp
  from select_entry_preferred_held [OF s1 Cons.prems(2) this]
  have "best_size st1 = pn \<longrightarrow> best_generator st1 = Some gen \<and> best_modulus st1 = Some md" .
  from Cons.IH [OF s2 this] Cons.prems(3) show ?case by simp
qed

text \<open>
  C3 (amended). For bounds with \<open>0 < pn\<close> and \<open>pmin \<le> pn \<le> pmax\<close>, the scan started with no
  size returns when no allocation fails and the tie count it starts with plus the number
  of entries is below \<open>2 ^ 32\<close> (at \<open>2 ^ 32\<close> tied entries line 330 computes
  \<^verbatim>\<open>nounce % 0\<close>); and whenever it returns its best size is the one the spec promises: \<open>pn\<close> if a candidate
  has it, otherwise the smallest candidate size \<open>\<ge> pn\<close> inside \<open>[pmin, pmax]\<close>, otherwise
  the largest candidate size \<open>< pn\<close> inside \<open>[pmin, pmax]\<close>. If the candidates of size \<open>pn\<close>
  all carry the same generator and modulus, that pair is the one held at the end.
\<close>

theorem preferred_size_selected:
  assumes "0 < pn" "pmin \<le> pn" "pn \<le> pmax" "best_size st0 = 0"
  shows "((\<forall>j. strdup_generator_ok (env j) \<and> strdup_modulus_ok (env j)) \<and>
          best_nlines st0 + length rs < 2 ^ 32 \<longrightarrow>
          (\<exists>st. select_loop pmin pn pmax env i st0 rs = Inr st)) \<and>
         (\<forall>st. select_loop pmin pn pmax env i st0 rs = Inr st \<longrightarrow>
            best_size st = spec_best_size pmin pn pmax (candidate_sizes rs) \<and>
            (\<forall>r\<in>set rs. wanted_entry r \<and> proposed_size_of r = pn \<and>
               (\<forall>r'\<in>set rs. wanted_entry r' \<and> proposed_size_of r' = pn \<longrightarrow>
                  m_generator r' = m_generator r \<and> m_modulus r' = m_modulus r) \<longrightarrow>
               best_size st = pn \<and>
               best_generator st = Some (strdup (m_generator r)) \<and>
               best_modulus st = Some (strdup (m_modulus r))))"
proof (intro conjI allI impI ballI)
  assume "(\<forall>j. strdup_generator_ok (env j) \<and> strdup_modulus_ok (env j)) \<and>
          best_nlines st0 + length rs < 2 ^ 32"
  then show "\<exists>st. select_loop pmin pn pmax env i st0 rs = Inr st"
    using select_loop_returns by blast
next
  fix st
  assume run: "select_loop pmin pn pmax env i st0 rs = Inr st"
  from select_loop_best_size [OF run] assms(4) foldl_best_size_spec [OF assms(1-3)]
  show size: "best_size st = spec_best_size pmin pn pmax (candidate_sizes rs)"
    by simp
  fix r
  assume r: "r \<in> set rs" and h: "wanted_entry r \<and> proposed_size_of r = pn \<and>
               (\<forall>r'\<in>set rs. wanted_entry r' \<and> proposed_size_of r' = pn \<longrightarrow>
                  m_generator r' = m_generator r \<and> m_modulus r' = m_modulus r)"
  from r h have "pn \<in> set (candidate_sizes rs)"
    by (auto simp: candidate_sizes_def)
  with size show pn: "best_size st = pn"
    by (simp add: spec_best_size_def Let_def)
  from h have "\<forall>r'\<in>set rs. wanted_entry r' \<and> proposed_size_of r' = pn \<longrightarrow>
       strdup (m_generator r') = strdup (m_generator r) \<and>
       strdup (m_modulus r') = strdup (m_modulus r)"
    by auto
  from select_loop_preferred_held [OF this run] assms(1,4) pn
  show "best_generator st = Some (strdup (m_generator r))"
    "best_modulus st = Some (strdup (m_modulus r))"
    by auto
qed

text \<open>The definitions a concrete scan unfolds to.\<close>

lemmas scan_defs = select_entry_def adopt_size_def count_line_def draw_and_hold_def
  replace_held_def invn_chance_def strdup_def wanted_entry_def proposed_size_of_def
  size_t_wrap_def dhgroup_better_size_def SAFE_PRIME_def PRIM_TEST_REQUIRED_def
  example_entry_def calls_succeed_def always_succeed_def no_selection_def

text \<open>The end-to-end example of the spec: bounds (1024, 2048, 8192) and entries of 4096,
  1024 and 2048 bits give the 2048-bit entry.\<close>

theorem preferred_size_selected_witness:
  "(0::nat) < 2048 \<and> (1024::nat) \<le> 2048 \<and> (2048::nat) \<le> 8192 \<and> best_size no_selection = 0 \<and>
   select_loop 1024 2048 8192 always_succeed 0 no_selection three_sizes =
     Inr \<lparr>best_size = 2048, best_nlines = 1, best_generator = Some ''2'',
          best_modulus = Some ''F3''\<rparr> \<and>
   candidate_sizes three_sizes = [4096, 1024, 2048] \<and>
   spec_best_size 1024 2048 8192 (candidate_sizes three_sizes) = 2048"
proof -
  have run: "select_loop 1024 2048 8192 always_succeed 0 no_selection three_sizes =
     Inr \<lparr>best_size = 2048, best_nlines = 1, best_generator = Some ''2'',
          best_modulus = Some ''F3''\<rparr>"
    by (simp add: three_sizes_def scan_defs)
  have cands: "candidate_sizes three_sizes = [4096, 1024, 2048]"
    by (simp add: candidate_sizes_def three_sizes_def scan_defs)
  have bounds: "(0::nat) < 2048" "(1024::nat) \<le> 2048" "(2048::nat) \<le> 8192"
    by simp_all
  have start: "best_size no_selection = 0"
    by (simp add: no_selection_def)
  note sel = preferred_size_selected [OF bounds start, of always_succeed three_sizes 0]
  from sel have "\<forall>st. select_loop 1024 2048 8192 always_succeed 0 no_selection three_sizes = Inr st \<longrightarrow>
      best_size st = spec_best_size 1024 2048 8192 (candidate_sizes three_sizes) \<and>
      (\<forall>r\<in>set three_sizes. wanted_entry r \<and> proposed_size_of r = 2048 \<and>
         (\<forall>r'\<in>set three_sizes. wanted_entry r' \<and> proposed_size_of r' = 2048 \<longrightarrow>
            m_generator r' = m_generator r \<and> m_modulus r' = m_modulus r) \<longrightarrow>
         best_size st = 2048 \<and>
         best_generator st = Some (strdup (m_generator r)) \<and>
         best_modulus st = Some (strdup (m_modulus r)))"
    by (rule conjunct2)
  with run have "best_size \<lparr>best_size = 2048, best_nlines = 1, best_generator = Some ''2'',
          best_modulus = Some ''F3''\<rparr> = spec_best_size 1024 2048 8192 (candidate_sizes three_sizes)"
    by blast
  then have "spec_best_size 1024 2048 8192 (candidate_sizes three_sizes) = 2048"
    by simp
  with run cands bounds start show ?thesis
    by simp
qed

text \<open>
  C3 as stated fails for \<open>pn = 0\<close>: 0 is the value of "no size yet", the test
  \<^verbatim>\<open>current_size == pn\<close> of line 287 comes before the test \<^verbatim>\<open>current_size == 0\<close> of
  line 292, and no size is ever adopted. With bounds (0, 0, 10) and one candidate of
  size 5 the spec promises 5 and the scan ends with 0.
\<close>

theorem preferred_zero_counterexample:
  "(0::nat) \<le> 0 \<and> (0::nat) \<le> 10 \<and>
   select_loop 0 0 10 always_succeed 0 no_selection [example_entry 4 ''2'' ''B5''] =
     Inr no_selection \<and>
   best_size no_selection = 0 \<and>
   candidate_sizes [example_entry 4 ''2'' ''B5''] = [5] \<and>
   spec_best_size 0 0 10 (candidate_sizes [example_entry 4 ''2'' ''B5'']) = 5"
  by (simp add: candidate_sizes_def spec_best_size_def scan_defs)

section \<open>The chance of a replacement\<close>

lemma card_multiples_below:
  fixes d N :: nat
  assumes "0 < d" "0 < N"
  shows "card {k. k < N \<and> k mod d = 0} = (N - 1) div d + 1"
proof -
  have "{k. k < N \<and> k mod d = 0} = (\<lambda>j. j * d) ` {j. j \<le> (N - 1) div d}"
  proof (intro equalityI subsetI)
    fix k assume "k \<in> {k. k < N \<and> k mod d = 0}"
    then have k: "k < N" "d dvd k" by auto
    then obtain j where j: "k = j * d" by (auto simp: dvd_def mult.commute)
    with k assms have "j * d \<le> N - 1" by simp
    with assms(1) have "j \<le> (N - 1) div d"
      by (simp add: less_eq_div_iff_mult_less_eq)
    with j show "k \<in> (\<lambda>j. j * d) ` {j. j \<le> (N - 1) div d}" by auto
  next
    fix k assume "k \<in> (\<lambda>j. j * d) ` {j. j \<le> (N - 1) div d}"
    then obtain j where j: "k = j * d" "j \<le> (N - 1) div d" by auto
    with assms(1) have "j * d \<le> N - 1"
      by (simp add: less_eq_div_iff_mult_less_eq)
    with assms(2) j show "k \<in> {k. k < N \<and> k mod d = 0}" by auto
  qed
  moreover have "inj_on (\<lambda>j. j * d) {j. j \<le> (N - 1) div d}"
    using assms(1) by (auto simp: inj_on_def)
  ultimately have "card {k. k < N \<and> k mod d = 0} = card {j. j \<le> (N - 1) div d}"
    by (simp add: card_image)
  also have "{j. j \<le> (N - 1) div d} = {..(N - 1) div d}" by auto
  finally show ?thesis by simp
qed

lemma invn_chance_hit:
  assumes "n \<noteq> 0"
  shows "invn_chance n w = Some True \<longleftrightarrow> unat w mod unat n = 0"
proof -
  have "w mod n = 0 \<longleftrightarrow> unat (w mod n) = 0"
    by (simp add: unat_eq_zero)
  also have "unat (w mod n) = unat w mod unat n"
    by (rule unat_mod)
  finally show ?thesis
    using assms by (simp add: invn_chance_def)
qed

lemma unat_image_multiples:
  fixes n :: "32 word"
  shows "unat ` {w :: 32 word. unat w mod unat n = 0} = {k. k < 2 ^ 32 \<and> k mod unat n = 0}"
proof (intro equalityI subsetI)
  fix k assume "k \<in> unat ` {w :: 32 word. unat w mod unat n = 0}"
  then obtain w :: "32 word" where w: "k = unat w" "unat w mod unat n = 0" by auto
  have "unat w < 2 ^ LENGTH(32)"
    by (rule unsigned_less)
  with w show "k \<in> {k. k < 2 ^ 32 \<and> k mod unat n = 0}"
    by simp
next
  fix k assume "k \<in> {k. k < 2 ^ 32 \<and> k mod unat n = 0}"
  then have k: "k < 2 ^ 32" "k mod unat n = 0" by auto
  have "unat (word_of_nat k :: 32 word) = k mod 2 ^ LENGTH(32)"
    by (rule unat_of_nat)
  with k(1) have "unat (word_of_nat k :: 32 word) = k"
    by simp
  with k(2) have "word_of_nat k \<in> {w :: 32 word. unat w mod unat n = 0}"
    by simp
  then have "unat (word_of_nat k :: 32 word) \<in> unat ` {w :: 32 word. unat w mod unat n = 0}"
    by (rule imageI)
  with \<open>unat (word_of_nat k :: 32 word) = k\<close>
  show "k \<in> unat ` {w :: 32 word. unat w mod unat n = 0}"
    by simp
qed

lemma draw_hits_eq:
  assumes "n \<noteq> 0"
  shows "draw_hits n = (2 ^ 32 - 1) div unat n + 1"
proof -
  from assms have d: "0 < unat n"
    by (simp add: unat_gt_0)
  have "inj_on unat {w :: 32 word. unat w mod unat n = 0}"
    by (rule inj_onI) (simp add: word_unat_eq_iff)
  then have "card (unat ` {w :: 32 word. unat w mod unat n = 0}) =
      card {w :: 32 word. unat w mod unat n = 0}"
    by (rule card_image)
  then have "card {w :: 32 word. unat w mod unat n = 0} =
      card {k. k < 2 ^ 32 \<and> k mod unat n = 0}"
    by (simp only: unat_image_multiples)
  also have "\<dots> = (2 ^ 32 - 1) div unat n + 1"
    by (rule card_multiples_below [OF d]) simp
  finally show ?thesis
    by (simp only: draw_hits_def invn_chance_hit [OF assms])
qed

lemma ceil_div_exact:
  fixes d N :: nat
  assumes "0 < d" "0 < N"
  shows "((N - 1) div d + 1) * d = N \<longleftrightarrow> d dvd N"
proof
  assume "((N - 1) div d + 1) * d = N"
  then show "d dvd N" by (metis dvd_triv_right)
next
  assume "d dvd N"
  then obtain q where q: "N = d * q" by (auto simp: dvd_def)
  with assms have "0 < q" by (cases q) auto
  then obtain q' where q': "q = Suc q'" by (cases q) auto
  from assms(1) obtain r where r: "d = Suc r" by (cases d) auto
  from q q' r have "N - 1 = r + q' * Suc r"
    by simp
  moreover have "(r + q' * Suc r) div Suc r = q'"
    using div_mult_self3 [of "Suc r" r q'] by (simp del: mult_Suc_right)
  ultimately have "(N - 1) div Suc r = q'"
    by (simp only:)
  with r have "(N - 1) div d = q'"
    by simp
  with q q' show "((N - 1) div d + 1) * d = N"
    by (simp add: algebra_simps)
qed

lemma draw_exact_iff:
  assumes "n \<noteq> 0"
  shows "draw_hits n * unat n = 2 ^ 32 \<longleftrightarrow> unat n dvd 2 ^ 32"
proof -
  from assms have "0 < unat n" by (simp add: unat_gt_0)
  from ceil_div_exact [OF this, of "2 ^ 32"] show ?thesis
    by (simp only: draw_hits_eq [OF assms]) simp
qed

text \<open>
  C4. The docstring of \<^verbatim>\<open>invn_chance\<close> and the spec promise a replacement with
  probability exactly \<open>1 / n\<close>. The code computes \<^verbatim>\<open>nounce % n == 0\<close> on a 32-bit draw:
  for \<open>n = 3\<close>, the third of three tied entries, 1431655766 of the \<open>2 ^ 32\<close> values
  give a replacement, which is more than a third of them.
\<close>

theorem draw_probability_three:
  "draw_hits 3 = 1431655766 \<and> 3 * draw_hits 3 \<noteq> 2 ^ 32"
proof -
  have "draw_hits 3 = (2 ^ 32 - 1) div unat (3 :: 32 word) + 1"
    by (rule draw_hits_eq) simp
  also have "unat (3 :: 32 word) = 3"
    by simp
  finally have "draw_hits 3 = 1431655766"
    by simp
  then show ?thesis
    by simp
qed

section \<open>Retrieval from a file\<close>

declare moduli_lines.simps [simp del]

lemmas reader_defs = moduli_lines.simps read_line_def moduli_format_def conv_s_def conv_zu_def isspace_def
  isdigit_def strtoul_value_def digits_value_def skip_line_def entry_of_def EOF_def Let_def
  parsed_entries_def

lemma select_entry_no_group:
  assumes "\<not> qualifies pmin pmax r" "best_size st = 0"
    "select_entry pmin pn pmax env r st = Inr st'"
  shows "best_size st' = 0"
  using assms
  by (auto simp: qualifies_def select_entry_def adopt_size_def count_line_def draw_and_hold_def
      replace_held_def dhgroup_better_size_def split: if_splits option.splits bool.splits)

lemma select_loop_no_group:
  "\<forall>r\<in>set rs. \<not> qualifies pmin pmax r \<Longrightarrow> best_size st = 0 \<Longrightarrow>
   select_loop pmin pn pmax env i st rs = Inr st' \<Longrightarrow> best_size st' = 0"
proof (induction rs arbitrary: i st)
  case Nil
  then show ?case by simp
next
  case (Cons r rs)
  from Cons.prems(3) obtain st1 where
    s1: "select_entry pmin pn pmax (env i) r st = Inr st1" and
    s2: "select_loop pmin pn pmax env (Suc i) st1 rs = Inr st'"
    by (auto split: sum.splits)
  from Cons.prems(1) have "\<not> qualifies pmin pmax r" by simp
  from select_entry_no_group [OF this Cons.prems(2) s1] have "best_size st1 = 0" .
  with Cons.IH [OF _ this s2] Cons.prems(1) show ?case by simp
qed

text \<open>
  C5 (amended). When no entry of a readable file qualifies, no \<^verbatim>\<open>strdup\<close> fails and the
  file has fewer than \<open>2 ^ 32\<close> entries, the scan \<^verbatim>\<open>ssh_retrieve_dhgroup_file\<close> returns
  \<^verbatim>\<open>SSH_OK\<close> with best size 0, and \<^verbatim>\<open>ssh_retrieve_dhgroup\<close> turns that into
  \<^verbatim>\<open>SSH_ERROR\<close> with \<^verbatim>\<open>*size = 0\<close> and \<^verbatim>\<open>*p = *g = NULL\<close> (the test \<^verbatim>\<open>*size == 0\<close> of
  line 481).
\<close>

theorem no_group_is_ssh_error:
  assumes "\<forall>r\<in>set (parsed_entries (moduli_lines 1 content)). \<not> qualifies pmin pmax r"
    and "\<forall>j. strdup_generator_ok (env j) \<and> strdup_modulus_ok (env j)"
    and "length (parsed_entries (moduli_lines 1 content)) < 2 ^ 32"
  shows "(\<exists>st. ssh_retrieve_dhgroup_file content pmin pn pmax env no_selection = Inr st \<and>
            best_size st = 0) \<and>
         ssh_retrieve_dhgroup hex2bn (Some content) pmin pn pmax env out =
           Some (SSH_ERROR, \<lparr>out_size = 0, out_p = None, out_g = None\<rparr>)"
proof -
  let ?rs = "parsed_entries (moduli_lines 1 content)"
  let ?st0 = "no_selection\<lparr>best_nlines := 0\<rparr>"
  from assms(3) have "best_nlines ?st0 + length ?rs < 2 ^ 32"
    by simp
  from select_loop_returns [OF assms(2) this] obtain st where
    run: "select_loop pmin pn pmax env 0 ?st0 ?rs = Inr st"
    by blast
  have "best_size ?st0 = 0"
    by (simp add: no_selection_def)
  from select_loop_no_group [OF assms(1) this run] have z: "best_size st = 0" .
  from run have scan: "ssh_retrieve_dhgroup_file content pmin pn pmax env no_selection = Inr st"
    by (simp add: ssh_retrieve_dhgroup_file_def)
  with z show ?thesis
    by (simp add: ssh_retrieve_dhgroup_def)
qed

lemma too_small_entries:
  "parsed_entries (moduli_lines 1 too_small_only) = [example_entry 511 ''2'' ''F3'']"
  by (simp add: too_small_only_def reader_defs example_entry_def)

theorem no_group_is_ssh_error_witness:
  "parsed_entries (moduli_lines 1 too_small_only) = [example_entry 511 ''2'' ''F3''] \<and>
   \<not> qualifies 1024 8192 (example_entry 511 ''2'' ''F3'') \<and>
   ssh_retrieve_dhgroup_file too_small_only 1024 2048 8192 always_succeed no_selection =
     Inr no_selection \<and>
   best_size no_selection = 0 \<and>
   ssh_retrieve_dhgroup example_hex2bn (Some too_small_only) 1024 2048 8192 always_succeed
     unset_out = Some (SSH_ERROR, \<lparr>out_size = 0, out_p = None, out_g = None\<rparr>)"
proof -
  have q: "\<not> qualifies 1024 8192 (example_entry 511 ''2'' ''F3'')"
    by (simp add: qualifies_def scan_defs)
  then have h1: "\<forall>r\<in>set (parsed_entries (moduli_lines 1 too_small_only)). \<not> qualifies 1024 8192 r"
    by (simp only: too_small_entries) simp
  have h2: "\<forall>j. strdup_generator_ok (always_succeed j) \<and> strdup_modulus_ok (always_succeed j)"
    by (simp add: always_succeed_def calls_succeed_def)
  have h3: "length (parsed_entries (moduli_lines 1 too_small_only)) < 2 ^ 32"
    by (simp only: too_small_entries) simp
  have run: "ssh_retrieve_dhgroup_file too_small_only 1024 2048 8192 always_succeed no_selection =
     Inr no_selection"
    by (simp only: ssh_retrieve_dhgroup_file_def too_small_entries) (simp add: scan_defs)
  have z: "best_size no_selection = 0"
    by (simp add: no_selection_def)
  from no_group_is_ssh_error [OF h1 h2 h3, of 2048 example_hex2bn unset_out] q run z
    too_small_entries
  show ?thesis by blast
qed

text \<open>
  C5 as stated fails: for a readable, empty file \<^verbatim>\<open>ssh_retrieve_dhgroup\<close> returns
  \<^verbatim>\<open>SSH_ERROR\<close>, the value it also returns when the file cannot be opened.
\<close>

theorem no_group_counterexample:
  "ssh_retrieve_dhgroup example_hex2bn (Some []) 1024 2048 8192 always_succeed unset_out =
     Some (SSH_ERROR, \<lparr>out_size = 0, out_p = None, out_g = None\<rparr>) \<and>
   ssh_retrieve_dhgroup example_hex2bn None 1024 2048 8192 always_succeed unset_out =
     Some (SSH_ERROR, \<lparr>out_size = 0, out_p = None, out_g = None\<rparr>) \<and>
   SSH_ERROR \<noteq> SSH_OK"
  by (simp add: ssh_retrieve_dhgroup_def ssh_retrieve_dhgroup_file_def reader_defs
      no_selection_def unset_out_def SSH_ERROR_def SSH_OK_def)

text \<open>No content of the file makes the scan return \<^verbatim>\<open>SSH_ERROR\<close>: without an allocation
  failure, and with fewer than \<open>2 ^ 32\<close> entries, it returns \<^verbatim>\<open>SSH_OK\<close>.\<close>

lemma ssh_retrieve_dhgroup_file_returns:
  assumes "\<forall>j. strdup_generator_ok (env j) \<and> strdup_modulus_ok (env j)"
    and "length (parsed_entries (moduli_lines 1 content)) < 2 ^ 32"
  shows "\<exists>st'. ssh_retrieve_dhgroup_file content pmin pn pmax env st = Inr st'"
proof -
  from assms(2)
  have "best_nlines (st\<lparr>best_nlines := 0\<rparr>) + length (parsed_entries (moduli_lines 1 content))
      < 2 ^ 32"
    by simp
  from select_loop_returns [OF assms(1) this] show ?thesis
    by (simp add: ssh_retrieve_dhgroup_file_def)
qed

text \<open>
  A line that \<^verbatim>\<open>fscanf\<close> stops in (here at the non-numeric second field) is logged and
  skipped, and the next line is read as it should. A line that ends early is completed
  from the next one: with six fields, the next line's timestamp becomes the modulus of a
  2048-bit entry, which is then the group selected.
\<close>

lemma bad_field_line_is_skipped:
  "moduli_lines 1 bad_field_then_valid = [Invalid_line 1, Parsed (example_entry 2047 ''5'' ''C7'')] \<and>
   ssh_retrieve_dhgroup_file bad_field_then_valid 1024 2048 8192 always_succeed no_selection =
     Inr \<lparr>best_size = 2048, best_nlines = 1, best_generator = Some ''5'',
          best_modulus = Some ''C7''\<rparr>"
proof -
  have a: "moduli_lines 1 bad_field_then_valid =
      [Invalid_line 1, Parsed (example_entry 2047 ''5'' ''C7'')]"
    by (simp add: bad_field_then_valid_def reader_defs example_entry_def)
  then show ?thesis
    by (simp only: ssh_retrieve_dhgroup_file_def a) (simp add: parsed_entries_def scan_defs)
qed

lemma six_field_line_takes_next_timestamp:
  "moduli_lines 1 six_fields_then_valid =
     [Parsed (example_entry 2047 ''2'' ''20200101000000''), Invalid_line 2] \<and>
   ssh_retrieve_dhgroup_file six_fields_then_valid 1024 2048 8192 always_succeed no_selection =
     Inr \<lparr>best_size = 2048, best_nlines = 1, best_generator = Some ''2'',
          best_modulus = Some ''20200101000000''\<rparr>"
proof -
  have a: "moduli_lines 1 six_fields_then_valid =
      [Parsed (example_entry 2047 ''2'' ''20200101000000''), Invalid_line 2]"
    by (simp add: six_fields_then_valid_def reader_defs example_entry_def)
  then show ?thesis
    by (simp only: ssh_retrieve_dhgroup_file_def a) (simp add: parsed_entries_def scan_defs)
qed

text \<open>
  C9. A line with one field is not logged and the scan does not skip to its end:
  \<^verbatim>\<open>fscanf\<close> goes on into the next line for the six missing fields, stores seven values
  and returns 7. The entry it builds has type 20200101000000 and is dropped by the filter;
  what is left of the valid line is then the one reported as invalid line 2. The scan ends
  with no group, though the valid line alone gives the 2048-bit group.
\<close>

theorem malformed_line_hides_next_record:
  "moduli_lines 1 junk_then_valid =
     [Parsed \<lparr>m_timestamp = ''garbage'', m_type = 20200101000000, m_tests = 2, m_tries = 6,
        m_size = 100, m_generator = ''2047'', m_modulus = ''2''\<rparr>,
      Invalid_line 2] \<and>
   ssh_retrieve_dhgroup_file junk_then_valid 1024 2048 8192 always_succeed no_selection =
     Inr no_selection \<and>
   ssh_retrieve_dhgroup_file valid_only 1024 2048 8192 always_succeed no_selection =
     Inr \<lparr>best_size = 2048, best_nlines = 1, best_generator = Some ''2'',
          best_modulus = Some ''F3''\<rparr>"
proof -
  have a: "moduli_lines 1 junk_then_valid =
     [Parsed \<lparr>m_timestamp = ''garbage'', m_type = 20200101000000, m_tests = 2, m_tries = 6,
        m_size = 100, m_generator = ''2047'', m_modulus = ''2''\<rparr>,
      Invalid_line 2]"
    by (simp add: junk_then_valid_def reader_defs)
  have b: "moduli_lines 1 valid_only = [Parsed (example_entry 2047 ''2'' ''F3'')]"
    by (simp add: valid_only_def reader_defs example_entry_def)
  have "ssh_retrieve_dhgroup_file junk_then_valid 1024 2048 8192 always_succeed no_selection =
     Inr no_selection"
    by (simp only: ssh_retrieve_dhgroup_file_def a) (simp add: parsed_entries_def scan_defs)
  moreover have "ssh_retrieve_dhgroup_file valid_only 1024 2048 8192 always_succeed no_selection =
     Inr \<lparr>best_size = 2048, best_nlines = 1, best_generator = Some ''2'',
          best_modulus = Some ''F3''\<rparr>"
    by (simp only: ssh_retrieve_dhgroup_file_def b) (simp add: parsed_entries_def scan_defs)
  ultimately show ?thesis
    using a by simp
qed

section \<open>The client's group handler\<close>

lemma dhgex_group_error_rejected:
  "dh_handshake_state s' = dh_handshake_state s \<Longrightarrow> out_buffer s' = out_buffer s \<Longrightarrow>
   sent s' = sent s \<Longrightarrow> group_rejected s (dhgex_group_error s')"
  by (simp add: group_rejected_def dhgex_group_error_def context_released_def ssh_dh_cleanup_def)

lemma num_bits_bounds:
  "2 ^ k \<le> n \<Longrightarrow> n < 2 ^ Suc k \<Longrightarrow> num_bits n = Suc k"
proof (induction k arbitrary: n)
  case 0
  then have "n = 1" by simp
  then show ?case by simp
next
  case (Suc k)
  from Suc.prems have "2 ^ k \<le> n div 2" "n div 2 < 2 ^ Suc k" "n \<noteq> 0"
    by auto
  with Suc.IH [of "n div 2"] show ?case
    by (subst num_bits.simps) simp
qed

declare num_bits.simps [simp del]

lemma num_bits_small [simp]: "num_bits 0 = 0" "num_bits (Suc 0) = Suc 0"
  by (simp_all add: num_bits.simps)



text \<open>A generator \<open>g \<le> 1\<close> or \<open>g > p - 1\<close> is rejected; \<open>g = p - 1\<close> is not, and then the
  public value \<open>e\<close> is 1 or \<open>p - 1\<close>.\<close>

lemma dhgex_group_generator_rejected:
  assumes "unpack_BB env = Some (p, g)" "g \<le> 1 \<or> p - 1 < g"
  shows "group_rejected s (ssh_packet_client_dhgex_group lim env s)"
proof -
  from assms(2) have g: "bignum_cmp g 1 \<le> 0 \<or> bignum_cmp g (p - 1) > 0"
    by (auto simp: bignum_cmp_def)
  have "group_rejected s (dhgex_check_group lim env p g s')"
    if "dh_handshake_state s' = dh_handshake_state s" "out_buffer s' = out_buffer s"
      "sent s' = sent s" for s'
    using g that
    by (auto simp: dhgex_check_group_def Let_def ssh_set_error_def
        intro!: dhgex_group_error_rejected)
  with assms(1) show ?thesis
    by (auto simp: ssh_packet_client_dhgex_group_def Let_def ssh_set_error_def
        intro!: dhgex_group_error_rejected)
qed

lemma dhgex_group_generator_p_minus_one:
  assumes "dh_handshake_state s = DH_STATE_REQUEST_SENT"
    "DH_PMIN lim \<le> bignum_num_bits p" "bignum_num_bits p \<le> DH_PMAX lim" "odd p" "3 \<le> p"
  shows "ssh_packet_client_dhgex_group lim (group_calls True p (p - 1) x) s =
     (SSH_PACKET_USED,
      s\<lparr>dh_handshake_state := DH_STATE_INIT_SENT,
        next_crypto := (next_crypto s)\<lparr>dh_group_is_mutable := True, dh_p := Some p,
          dh_g := Some (p - 1), dh_x := Some x, dh_e := Some ((p - 1) ^ nat x mod p)\<rparr>,
        sent := sent s @ out_buffer s @ [KEX_DH_GEX_INIT ((p - 1) ^ nat x mod p)],
        out_buffer := []\<rparr>)"
proof -
  from assms(4,5) have "bignum_is_bit_set p 0"
    by (simp add: bignum_is_bit_set_def bit_0 even_nat_iff)
  with assms show ?thesis
    by (simp add: ssh_packet_client_dhgex_group_def dhgex_check_group_def dhgex_send_init_def
        group_calls_def bignum_cmp_def Let_def ssh_buffer_pack_def ssh_packet_send_def
        SSH_OK_def SSH_ERROR_def)
qed

lemma minus_one_mod: "((p::int) - 1) mod p = (- 1) mod p"
  by algebra

lemma minus_one_power_mod: "1 < (p::int) \<Longrightarrow> odd n \<Longrightarrow> (- 1) ^ n mod p = p - 1"
proof -
  assume p: "1 < p" and n: "odd n"
  from n have "(- 1 :: int) ^ n = - 1" by simp
  moreover have "(- 1) mod p = p - 1"
    using p by (simp add: zmod_minus1)
  ultimately show ?thesis by simp
qed

lemma p_minus_one_power:
  assumes "1 < (p::int)" "odd n"
  shows "(p - 1) ^ n mod p = p - 1"
proof -
  have "(p - 1) ^ n mod p = ((p - 1) mod p) ^ n mod p"
    by (rule power_mod [symmetric])
  also have "\<dots> = ((- 1) mod p) ^ n mod p"
    by (simp only: minus_one_mod)
  also have "\<dots> = (- 1) ^ n mod p"
    by (rule power_mod)
  also have "\<dots> = p - 1"
    by (rule minus_one_power_mod [OF assms])
  finally show ?thesis .
qed

text \<open>
  C1. The comment of line 157 and the spec ask for a generator smaller than \<open>p - 1\<close>. The
  test of line 156 is \<^verbatim>\<open>bignum_cmp(g, pmin1) > 0\<close>, so \<open>g = p - 1\<close> passes: with limits of
  2048 to 8192 bits, the group \<open>p = 2 ^ 2047 + 1\<close>, \<open>g = 2 ^ 2047\<close> is accepted, the secret
  is generated and the init message is sent (with \<open>e = p - 1\<close>).
\<close>

theorem generator_p_minus_one_accepted:
  "ssh_packet_client_dhgex_group example_limits
     (group_calls True (2 ^ 2047 + 1) (2 ^ 2047) 3) (session_in DH_STATE_REQUEST_SENT True) =
   (SSH_PACKET_USED,
    (session_in DH_STATE_REQUEST_SENT True)
      \<lparr>dh_handshake_state := DH_STATE_INIT_SENT,
       next_crypto := fresh_crypto\<lparr>dh_ctx := True, dh_group_is_mutable := True,
         dh_p := Some (2 ^ 2047 + 1), dh_g := Some (2 ^ 2047), dh_x := Some 3,
         dh_e := Some (2 ^ 2047)\<rparr>,
       sent := [KEX_DH_GEX_INIT (2 ^ 2047)]\<rparr>)"
proof -
  define p :: int where "p = 2 ^ 2047 + 1"
  have "num_bits (2 ^ 2047 + 1) = Suc 2047"
    by (rule num_bits_bounds) simp_all
  then have bits: "bignum_num_bits p = 2048"
    by (simp add: p_def bignum_num_bits_def nat_add_distrib nat_power_eq)
  have big: "3 \<le> p" "odd p"
    by (simp_all add: p_def)
  then have e: "(p - 1) ^ nat 3 mod p = p - 1"
    by (intro p_minus_one_power) simp_all
  have st: "dh_handshake_state (session_in DH_STATE_REQUEST_SENT True) = DH_STATE_REQUEST_SENT"
    by (simp add: session_in_def)
  have lim: "DH_PMIN example_limits \<le> bignum_num_bits p"
    "bignum_num_bits p \<le> DH_PMAX example_limits"
    by (simp_all add: bits example_limits_def)
  note run = dhgex_group_generator_p_minus_one [OF st lim big(2,1), of 3]
  have g: "p - 1 = 2 ^ 2047"
    by (simp add: p_def)
  show ?thesis
    using run unfolding e unfolding g unfolding p_def
    by (simp add: session_in_def)
qed

text \<open>
  The branch of lines 145-148 sets the error and has no \<^verbatim>\<open>goto\<close>. It is reached with
  \<open>p \<le> 1\<close> only when the lower limit is below 2 bits: then \<open>p = 1\<close>, \<open>g = 2\<close> has the error
  for \<open>p\<close> set and is rejected by the generator check.
\<close>

lemma p_check_sets_error_only:
  "ssh_packet_client_dhgex_group small_limits (group_calls True 1 2 3)
     (session_in DH_STATE_REQUEST_SENT True) =
   (SSH_PACKET_USED,
    (session_in DH_STATE_REQUEST_SENT True)
      \<lparr>session_state := SSH_SESSION_STATE_ERROR,
       next_crypto := fresh_crypto\<lparr>dh_group_is_mutable := True\<rparr>,
       errors := [Invalid_dh_group_parameter_p, Invalid_dh_group_parameter_g]\<rparr>)"
  by (simp add: ssh_packet_client_dhgex_group_def dhgex_check_group_def group_calls_def
      session_in_def small_limits_def fresh_crypto_def dhgex_group_error_def ssh_dh_cleanup_def
      ssh_set_error_def bignum_num_bits_def bignum_cmp_def bignum_is_bit_set_def bit_0 Let_def)




text \<open>
  C6 (amended). In every handshake state other than \<^verbatim>\<open>DH_STATE_REQUEST_SENT\<close> the group
  message is not decoded: the packet is reported as used, the context is released, the
  session goes to the error state, and nothing else changes. The state error is set
  when \<^verbatim>\<open>bignum_ctx_new\<close> succeeded; when it failed, line 106 jumps to the same exit
  before any error is set.
\<close>

theorem group_in_wrong_state:
  assumes "dh_handshake_state s \<noteq> DH_STATE_REQUEST_SENT"
  shows "ssh_packet_client_dhgex_group lim env s =
     (SSH_PACKET_USED,
      s\<lparr>next_crypto := ssh_dh_cleanup (next_crypto s),
        session_state := SSH_SESSION_STATE_ERROR,
        errors := errors s @
          (if ctx_new_ok env then [Received_DH_GEX_GROUP_in_invalid_state] else [])\<rparr>) \<and>
    group_rejected s (ssh_packet_client_dhgex_group lim env s)"
  using assms
  by (simp add: ssh_packet_client_dhgex_group_def dhgex_group_error_def ssh_set_error_def
      group_rejected_def context_released_def ssh_dh_cleanup_def)

theorem group_in_wrong_state_witness:
  "dh_handshake_state (session_in DH_STATE_INIT_SENT True) \<noteq> DH_STATE_REQUEST_SENT \<and>
   ssh_packet_client_dhgex_group example_limits (group_calls True 23 5 3)
     (session_in DH_STATE_INIT_SENT True) =
   (SSH_PACKET_USED,
    (session_in DH_STATE_INIT_SENT True)
      \<lparr>next_crypto := fresh_crypto,
       session_state := SSH_SESSION_STATE_ERROR,
       errors := [Received_DH_GEX_GROUP_in_invalid_state]\<rparr>)"
  using group_in_wrong_state [of "session_in DH_STATE_INIT_SENT True" example_limits
      "group_calls True 23 5 3"]
  by (simp add: session_in_def group_calls_def fresh_crypto_def ssh_dh_cleanup_def)

text \<open>C6 as stated fails when the big-number context cannot be allocated: no state error
  is set.\<close>

theorem group_in_wrong_state_counterexample:
  "dh_handshake_state (session_in DH_STATE_INIT_SENT True) \<noteq> DH_STATE_REQUEST_SENT \<and>
   errors (snd (ssh_packet_client_dhgex_group example_limits (group_calls False 23 5 3)
     (session_in DH_STATE_INIT_SENT True))) = []"
  by (simp add: ssh_packet_client_dhgex_group_def dhgex_group_error_def session_in_def
      group_calls_def)

section \<open>The client's reply handler\<close>

text \<open>
  C7. The reply handler never reads the handshake state; \<open>s\<close> below is any session, in
  any handshake state. When the reply decodes and every call succeeds, the handler
  stores \<open>f\<close>, the signature and the host key, builds the shared secret, sends
  \<^verbatim>\<open>NEWKEYS\<close> and sets the state to \<^verbatim>\<open>DH_STATE_NEWKEYS_SENT\<close>. Otherwise it leaves the
  handshake state as it found it, releases the context, moves the session to the error
  state and sends nothing. The only errors it sets are those of a bad packet and of a failed shared
  secret, never one about the state. Started from two sessions that differ in the
  handshake state only, it returns the same value and sessions that again differ in that
  state only.
\<close>

theorem reply_ignores_handshake_state:
  "(unpack_SBS env = Some (pubkey_blob, f, signature) \<and> import_pubkey_rc env = 0 \<and>
    build_k_rc env \<noteq> SSH_ERROR \<and> 0 \<le> add_u8_rc env \<and> reply_send_rc env \<noteq> SSH_ERROR \<longrightarrow>
      ssh_packet_client_dhgex_reply env s =
        (SSH_PACKET_USED,
         s\<lparr>dhgex_callbacks := False,
           next_crypto := (next_crypto s)\<lparr>dh_f := Some f,
             dh_server_signature := Some signature, server_pubkey := Some pubkey_blob,
             shared_secret_built := True\<rparr>,
           sent := sent s @ out_buffer s @ [NEWKEYS], out_buffer := [],
           dh_handshake_state := DH_STATE_NEWKEYS_SENT\<rparr>)) \<and>
   (\<not> reply_calls_succeed env \<longrightarrow>
      fst (ssh_packet_client_dhgex_reply env s) = SSH_PACKET_USED \<and>
      dh_handshake_state (snd (ssh_packet_client_dhgex_reply env s)) = dh_handshake_state s \<and>
      session_state (snd (ssh_packet_client_dhgex_reply env s)) = SSH_SESSION_STATE_ERROR \<and>
      next_crypto (snd (ssh_packet_client_dhgex_reply env s)) = ssh_dh_cleanup (next_crypto s) \<and>
      sent (snd (ssh_packet_client_dhgex_reply env s)) = sent s \<and>
      out_buffer (snd (ssh_packet_client_dhgex_reply env s)) =
        out_buffer s @
          (if unpack_SBS env \<noteq> None \<and> import_pubkey_rc env = 0 \<and>
              build_k_rc env \<noteq> SSH_ERROR \<and> 0 \<le> add_u8_rc env
           then [NEWKEYS] else []) \<and>
      \<not> dhgex_callbacks (snd (ssh_packet_client_dhgex_reply env s))) \<and>
   errors (snd (ssh_packet_client_dhgex_reply env s)) = errors s @ reply_errors env \<and>
   (dh_handshake_state (snd (ssh_packet_client_dhgex_reply env s)) = DH_STATE_NEWKEYS_SENT \<longleftrightarrow>
      reply_calls_succeed env \<or> dh_handshake_state s = DH_STATE_NEWKEYS_SENT) \<and>
   fst (ssh_packet_client_dhgex_reply env (s\<lparr>dh_handshake_state := a\<rparr>)) =
     fst (ssh_packet_client_dhgex_reply env (s\<lparr>dh_handshake_state := b\<rparr>)) \<and>
   (snd (ssh_packet_client_dhgex_reply env (s\<lparr>dh_handshake_state := a\<rparr>)))
       \<lparr>dh_handshake_state := c\<rparr> =
     (snd (ssh_packet_client_dhgex_reply env (s\<lparr>dh_handshake_state := b\<rparr>)))
       \<lparr>dh_handshake_state := c\<rparr>"
proof (intro conjI impI)
  assume "unpack_SBS env = Some (pubkey_blob, f, signature) \<and> import_pubkey_rc env = 0 \<and>
    build_k_rc env \<noteq> SSH_ERROR \<and> 0 \<le> add_u8_rc env \<and> reply_send_rc env \<noteq> SSH_ERROR"
  then show "ssh_packet_client_dhgex_reply env s =
        (SSH_PACKET_USED,
         s\<lparr>dhgex_callbacks := False,
           next_crypto := (next_crypto s)\<lparr>dh_f := Some f,
             dh_server_signature := Some signature, server_pubkey := Some pubkey_blob,
             shared_secret_built := True\<rparr>,
           sent := sent s @ out_buffer s @ [NEWKEYS], out_buffer := [],
           dh_handshake_state := DH_STATE_NEWKEYS_SENT\<rparr>)"
    by (simp add: ssh_packet_client_dhgex_reply_def ssh_packet_send_def Let_def)
next
  assume n: "\<not> reply_calls_succeed env"
  then show "fst (ssh_packet_client_dhgex_reply env s) = SSH_PACKET_USED"
    "dh_handshake_state (snd (ssh_packet_client_dhgex_reply env s)) = dh_handshake_state s"
    "session_state (snd (ssh_packet_client_dhgex_reply env s)) = SSH_SESSION_STATE_ERROR"
    "next_crypto (snd (ssh_packet_client_dhgex_reply env s)) = ssh_dh_cleanup (next_crypto s)"
    "sent (snd (ssh_packet_client_dhgex_reply env s)) = sent s"
    "out_buffer (snd (ssh_packet_client_dhgex_reply env s)) =
        out_buffer s @
          (if unpack_SBS env \<noteq> None \<and> import_pubkey_rc env = 0 \<and>
              build_k_rc env \<noteq> SSH_ERROR \<and> 0 \<le> add_u8_rc env
           then [NEWKEYS] else [])"
    "\<not> dhgex_callbacks (snd (ssh_packet_client_dhgex_reply env s))"
    by (auto simp: reply_calls_succeed_def ssh_packet_client_dhgex_reply_def
        dhgex_reply_error_def ssh_set_error_def ssh_packet_send_def ssh_dh_cleanup_def Let_def
        split: option.splits prod.splits)
next
  show "errors (snd (ssh_packet_client_dhgex_reply env s)) = errors s @ reply_errors env"
    by (auto simp: reply_errors_def ssh_packet_client_dhgex_reply_def
        dhgex_reply_error_def ssh_set_error_def ssh_packet_send_def Let_def
        split: option.splits prod.splits)
next
  show "dh_handshake_state (snd (ssh_packet_client_dhgex_reply env s)) = DH_STATE_NEWKEYS_SENT \<longleftrightarrow>
      reply_calls_succeed env \<or> dh_handshake_state s = DH_STATE_NEWKEYS_SENT"
    by (auto simp: reply_calls_succeed_def ssh_packet_client_dhgex_reply_def
        dhgex_reply_error_def ssh_set_error_def ssh_packet_send_def Let_def
        split: option.splits prod.splits)
next
  show "fst (ssh_packet_client_dhgex_reply env (s\<lparr>dh_handshake_state := a\<rparr>)) =
     fst (ssh_packet_client_dhgex_reply env (s\<lparr>dh_handshake_state := b\<rparr>))"
    by (simp add: ssh_packet_client_dhgex_reply_def dhgex_reply_error_def ssh_set_error_def
      ssh_packet_send_def Let_def split: option.split prod.split)
next
  show "(snd (ssh_packet_client_dhgex_reply env (s\<lparr>dh_handshake_state := a\<rparr>)))
       \<lparr>dh_handshake_state := c\<rparr> =
     (snd (ssh_packet_client_dhgex_reply env (s\<lparr>dh_handshake_state := b\<rparr>)))
       \<lparr>dh_handshake_state := c\<rparr>"
    by (simp add: ssh_packet_client_dhgex_reply_def dhgex_reply_error_def ssh_set_error_def
      ssh_packet_send_def Let_def split: option.split prod.split)
qed

theorem reply_ignores_handshake_state_witness:
  "ssh_packet_client_dhgex_reply (reply_calls ''hostkey'' 5 ''sig'') (session_in DH_STATE_INIT True) =
     (SSH_PACKET_USED,
      (session_in DH_STATE_INIT True)
        \<lparr>dhgex_callbacks := False,
         next_crypto := fresh_crypto\<lparr>dh_ctx := True, dh_f := Some 5,
           dh_server_signature := Some ''sig'', server_pubkey := Some ''hostkey'',
           shared_secret_built := True\<rparr>,
         sent := [NEWKEYS],
         dh_handshake_state := DH_STATE_NEWKEYS_SENT\<rparr>) \<and>
   reply_calls_succeed (reply_calls ''hostkey'' 5 ''sig'') \<and>
   DH_STATE_INIT \<noteq> DH_STATE_INIT_SENT"
proof -
  have pre: "unpack_SBS (reply_calls ''hostkey'' 5 ''sig'') = Some (''hostkey'', 5, ''sig'') \<and>
      import_pubkey_rc (reply_calls ''hostkey'' 5 ''sig'') = 0 \<and>
      build_k_rc (reply_calls ''hostkey'' 5 ''sig'') \<noteq> SSH_ERROR \<and>
      0 \<le> add_u8_rc (reply_calls ''hostkey'' 5 ''sig'') \<and>
      reply_send_rc (reply_calls ''hostkey'' 5 ''sig'') \<noteq> SSH_ERROR"
    by (simp add: reply_calls_def SSH_OK_def SSH_ERROR_def)
  note t = reply_ignores_handshake_state [of "reply_calls ''hostkey'' 5 ''sig''" "''hostkey''" 5
      "''sig''" "session_in DH_STATE_INIT True"]
  from t pre have "ssh_packet_client_dhgex_reply (reply_calls ''hostkey'' 5 ''sig'')
      (session_in DH_STATE_INIT True) =
        (SSH_PACKET_USED,
         (session_in DH_STATE_INIT True)\<lparr>dhgex_callbacks := False,
           next_crypto := (next_crypto (session_in DH_STATE_INIT True))\<lparr>dh_f := Some 5,
             dh_server_signature := Some ''sig'', server_pubkey := Some ''hostkey'',
             shared_secret_built := True\<rparr>,
           sent := sent (session_in DH_STATE_INIT True) @
             out_buffer (session_in DH_STATE_INIT True) @ [NEWKEYS],
           out_buffer := [],
           dh_handshake_state := DH_STATE_NEWKEYS_SENT\<rparr>)"
    by blast
  moreover have "reply_calls_succeed (reply_calls ''hostkey'' 5 ''sig'')"
    by (simp add: reply_calls_succeed_def reply_calls_def SSH_OK_def SSH_ERROR_def)
  ultimately show ?thesis
    by (simp add: session_in_def)
qed


section \<open>The client's initiation\<close>

text \<open>
  C8 (amended). When \<^verbatim>\<open>ssh_client_dhgex_init\<close> returns \<^verbatim>\<open>SSH_ERROR\<close> the context is
  released. If the common setup or the encoding of the request failed, nothing else
  changed, the handshake state included. Otherwise the send failed, after line 80
  registered the callbacks and line 81 set the state to \<^verbatim>\<open>DH_STATE_REQUEST_SENT\<close>.
\<close>

theorem init_failure:
  assumes "fst (ssh_client_dhgex_init lim env s) = SSH_ERROR"
  shows "context_released (next_crypto (snd (ssh_client_dhgex_init lim env s))) \<and>
    (if init_common_rc env \<noteq> SSH_OK \<or> init_pack_rc env \<noteq> SSH_OK
     then snd (ssh_client_dhgex_init lim env s) =
            s\<lparr>next_crypto := ssh_dh_cleanup (next_crypto s)\<rparr>
     else init_send_rc env = SSH_ERROR \<and>
          dh_handshake_state (snd (ssh_client_dhgex_init lim env s)) = DH_STATE_REQUEST_SENT \<and>
          dhgex_callbacks (snd (ssh_client_dhgex_init lim env s)))"
  using assms
  by (auto simp: ssh_client_dhgex_init_def dhgex_init_error_def ssh_dh_init_common_def
      ssh_buffer_pack_def ssh_packet_send_def Let_def context_released_def ssh_dh_cleanup_def
      split: if_splits)

theorem init_failure_witness:
  "fst (ssh_client_dhgex_init example_limits (init_calls SSH_OK SSH_ERROR SSH_OK)
     (session_in DH_STATE_INIT False)) = SSH_ERROR \<and>
   snd (ssh_client_dhgex_init example_limits (init_calls SSH_OK SSH_ERROR SSH_OK)
     (session_in DH_STATE_INIT False)) = session_in DH_STATE_INIT False \<and>
   context_released (next_crypto (session_in DH_STATE_INIT False))"
  using init_failure [of example_limits "init_calls SSH_OK SSH_ERROR SSH_OK"
      "session_in DH_STATE_INIT False"]
  by (simp add: ssh_client_dhgex_init_def dhgex_init_error_def ssh_dh_init_common_def
      ssh_buffer_pack_def Let_def init_calls_def session_in_def fresh_crypto_def
      ssh_dh_cleanup_def SSH_OK_def SSH_ERROR_def context_released_def)

text \<open>C8 as stated fails when the send fails: the handshake state has been advanced.\<close>

theorem init_send_failure_counterexample:
  "ssh_client_dhgex_init example_limits (init_calls SSH_OK SSH_OK SSH_ERROR)
     (session_in DH_STATE_INIT False) =
   (SSH_ERROR,
    (session_in DH_STATE_INIT False)
      \<lparr>dh_handshake_state := DH_STATE_REQUEST_SENT, dhgex_callbacks := True,
       out_buffer := [KEX_DH_GEX_REQUEST 2048 2048 8192]\<rparr>) \<and>
   DH_STATE_REQUEST_SENT \<noteq> dh_handshake_state (session_in DH_STATE_INIT False)"
  by (simp add: ssh_client_dhgex_init_def dhgex_init_error_def ssh_dh_init_common_def
      ssh_buffer_pack_def ssh_packet_send_def Let_def init_calls_def session_in_def
      fresh_crypto_def ssh_dh_cleanup_def SSH_OK_def SSH_ERROR_def example_limits_def)

section \<open>The generator \<open>p - 1\<close>, read off the session\<close>

text \<open>With \<open>g = p - 1\<close> the session is left in \<^verbatim>\<open>DH_STATE_INIT_SENT\<close>, not in the error
  state, and the init message is on the wire.\<close>

theorem generator_p_minus_one_accepted_witness:
  "dh_handshake_state (snd (ssh_packet_client_dhgex_group example_limits
     (group_calls True (2 ^ 2047 + 1) (2 ^ 2047) 3) (session_in DH_STATE_REQUEST_SENT True))) =
     DH_STATE_INIT_SENT \<and>
   session_state (snd (ssh_packet_client_dhgex_group example_limits
     (group_calls True (2 ^ 2047 + 1) (2 ^ 2047) 3) (session_in DH_STATE_REQUEST_SENT True))) =
     SSH_SESSION_STATE_other 0 \<and>
   sent (snd (ssh_packet_client_dhgex_group example_limits
     (group_calls True (2 ^ 2047 + 1) (2 ^ 2047) 3) (session_in DH_STATE_REQUEST_SENT True))) =
     [KEX_DH_GEX_INIT (2 ^ 2047)]"
  by (simp only: generator_p_minus_one_accepted) (simp add: session_in_def)

end
